theory Spec2Isabelle
  imports Complex_Main "HOL-Library.Multiset"
begin

section \<open>Grid search over exponential-smoothing configurations with walk-forward validation\<close>

text \<open>
  The development embeds the functions of the notebook
  \<^verbatim>\<open>py-timeseries-ets-california-female-births.ipynb\<close>:
  \<^verbatim>\<open>measure_rmse\<close>, \<^verbatim>\<open>train_test_split\<close>, \<^verbatim>\<open>walk_forward_validation\<close>,
  \<^verbatim>\<open>score_model\<close>, \<^verbatim>\<open>grid_search\<close> and \<^verbatim>\<open>exp_smoothing_configs\<close>.
  Observations and forecasts are numbers of type \<open>real\<close>; a Python exception is a value
  of type \<open>exn\<close>, and a call that may raise returns \<open>exn + 'a\<close> with \<open>Inl\<close> the
  exception.
\<close>

subsection \<open>Exceptions, configurations, the forecaster\<close>

datatype exn = ValueError | IndexError | TypeError | LibraryError string

text \<open>
  A configuration is the positional list \<^verbatim>\<open>[t,d,s,p,b,r]\<close> of the source: trend kind,
  damped flag, seasonal kind, seasonal period, Box-Cox flag, bias-removal flag. The kinds
  are \<^verbatim>\<open>'add'\<close>, \<^verbatim>\<open>'mul'\<close> or \<^verbatim>\<open>None\<close>; the period is an integer or \<^verbatim>\<open>None\<close>.
\<close>

type_synonym config = "string option \<times> bool \<times> string option \<times> int option \<times> bool \<times> bool"

text \<open>
  \<^verbatim>\<open>exp_smoothing_forecast(history, config)\<close> consists of calls into the statsmodels
  library only (build the model, fit it, predict one step). The functions below take it
  as the parameter \<open>forecast\<close>: from a history and a configuration it returns the
  forecast, or the exception the library raised.
\<close>

type_synonym forecaster = "real list \<Rightarrow> config \<Rightarrow> exn + real"

subsection \<open>Python slices\<close>

text \<open>
  The bound of a slice \<^verbatim>\<open>xs[:i]\<close> or \<^verbatim>\<open>xs[i:]\<close>: a negative index counts from the
  end, and the result is clamped to \<open>0 .. len\<close>.
\<close>

definition slice_bound :: "nat \<Rightarrow> int \<Rightarrow> nat" where
  "slice_bound len i =
     (if i < 0 then (if int len + i < 0 then 0 else nat (int len + i))
      else (if int len < i then len else nat i))"

definition slice_to :: "'a list \<Rightarrow> int \<Rightarrow> 'a list" where
  "slice_to xs i = take (slice_bound (length xs) i) xs"

definition slice_from :: "'a list \<Rightarrow> int \<Rightarrow> 'a list" where
  "slice_from xs i = drop (slice_bound (length xs) i) xs"

subsection \<open>The error measure\<close>

text \<open>
  \<^verbatim>\<open>mean_squared_error\<close> of scikit-learn: the mean of the squared differences; it raises
  \<^verbatim>\<open>ValueError\<close> when the two sequences differ in length or are empty.
  \<^verbatim>\<open>math.sqrt\<close> raises \<^verbatim>\<open>ValueError\<close> on a negative argument.
\<close>

definition mean_squared_error :: "real list \<Rightarrow> real list \<Rightarrow> exn + real" where
  "mean_squared_error y_true y_pred =
     (if length y_true \<noteq> length y_pred \<or> y_true = [] then Inl ValueError
      else Inr (sum_list (map (\<lambda>(a, p). (a - p)\<^sup>2) (zip y_true y_pred)) / real (length y_true)))"

definition math_sqrt :: "real \<Rightarrow> exn + real" where
  "math_sqrt x = (if x < 0 then Inl ValueError else Inr (sqrt x))"

definition measure_rmse :: "real list \<Rightarrow> real list \<Rightarrow> exn + real" where
  "measure_rmse actual predicted =
     (case mean_squared_error actual predicted of
        Inl e \<Rightarrow> Inl e
      | Inr m \<Rightarrow> math_sqrt m)"

subsection \<open>Splitting and walk-forward validation\<close>

text \<open>\<^verbatim>\<open>return data[:-n_test], data[-n_test:]\<close>\<close>

definition train_test_split :: "real list \<Rightarrow> int \<Rightarrow> real list \<times> real list" where
  "train_test_split data n_test = (slice_to data (- n_test), slice_from data (- n_test))"

text \<open>
  The loop \<^verbatim>\<open>for i in range(len(test))\<close> of \<^verbatim>\<open>walk_forward_validation\<close>, over the
  indices still to visit, on the state \<open>(predictions, history)\<close>: forecast from the
  history, append the forecast to the predictions, append \<^verbatim>\<open>test[i]\<close> to the history.
\<close>

fun wfv_loop :: "forecaster \<Rightarrow> config \<Rightarrow> real list \<Rightarrow> nat list \<Rightarrow> real list \<times> real list
    \<Rightarrow> exn + (real list \<times> real list)" where
  "wfv_loop forecast cfg test [] st = Inr st"
| "wfv_loop forecast cfg test (i # is) (predictions, history) =
     (case forecast history cfg of
        Inl e \<Rightarrow> Inl e
      | Inr yhat \<Rightarrow>
          (if i < length test
           then wfv_loop forecast cfg test is (predictions @ [yhat], history @ [test ! i])
           else Inl IndexError))"

definition walk_forward_validation :: "forecaster \<Rightarrow> real list \<Rightarrow> int \<Rightarrow> config \<Rightarrow> exn + real" where
  "walk_forward_validation forecast data n_test cfg =
     (let predictions = [];
          (train, test) = train_test_split data n_test;
          history = map (\<lambda>x. x) train
      in case wfv_loop forecast cfg test [0..<length test] (predictions, history) of
           Inl e \<Rightarrow> Inl e
         | Inr (predictions, history) \<Rightarrow> measure_rmse test predictions)"

subsection \<open>Scoring one configuration\<close>

text \<open>
  \<^verbatim>\<open>str(cfg)\<close>, the key of a configuration: the \<^verbatim>\<open>repr\<close> of each element, separated
  by a comma and a space, in square brackets. A string element is put in single quotes
  (the kinds \<^verbatim>\<open>'add'\<close> and \<^verbatim>\<open>'mul'\<close> contain nothing to escape).
\<close>

fun str_nat :: "nat \<Rightarrow> string" where
  "str_nat n =
     (if n < 10 then [''0123456789'' ! n] else str_nat (n div 10) @ [''0123456789'' ! (n mod 10)])"

declare str_nat.simps [simp del]

definition repr_int :: "int \<Rightarrow> string" where
  "repr_int i = (if i < 0 then ''-'' @ str_nat (nat (- i)) else str_nat (nat i))"

definition repr_bool :: "bool \<Rightarrow> string" where
  "repr_bool b = (if b then ''True'' else ''False'')"

definition repr_kind :: "string option \<Rightarrow> string" where
  "repr_kind k = (case k of None \<Rightarrow> ''None'' | Some s \<Rightarrow> [CHR 0x27] @ s @ [CHR 0x27])"

definition repr_period :: "int option \<Rightarrow> string" where
  "repr_period p = (case p of None \<Rightarrow> ''None'' | Some i \<Rightarrow> repr_int i)"

fun str_cfg :: "config \<Rightarrow> string" where
  "str_cfg (t, d, s, p, b, r) =
     ''['' @ repr_kind t @ '', '' @ repr_bool d @ '', '' @ repr_kind s @ '', '' @
     repr_period p @ '', '' @ repr_bool b @ '', '' @ repr_bool r @ '']''"

text \<open>
  \<^verbatim>\<open>score_model(data, n_test, cfg, debug)\<close>. With \<open>debug\<close> the evaluation is called
  bare; otherwise it runs inside \<^verbatim>\<open>try: ... except: error = None\<close>, which leaves
  \<open>result\<close> at its initial \<^verbatim>\<open>None\<close>. The progress line printed for a present result
  goes to the console and is not part of the returned value.
\<close>

definition score_model :: "forecaster \<Rightarrow> real list \<Rightarrow> int \<Rightarrow> config \<Rightarrow> bool
    \<Rightarrow> exn + (string \<times> real option)" where
  "score_model forecast data n_test cfg debug =
     (let result = None;
          key = str_cfg cfg
      in if debug then
           (case walk_forward_validation forecast data n_test cfg of
              Inl e \<Rightarrow> Inl e
            | Inr v \<Rightarrow> Inr (key, Some v))
         else
           (case walk_forward_validation forecast data n_test cfg of
              Inl e \<Rightarrow> Inr (key, result)
            | Inr v \<Rightarrow> Inr (key, Some v)))"

subsection \<open>Grid search\<close>

text \<open>
  A list comprehension whose elements may raise: the first exception, in list order,
  leaves the comprehension.
\<close>

fun collect :: "(exn + 'a) list \<Rightarrow> exn + 'a list" where
  "collect [] = Inr []"
| "collect (r # rs) =
     (case r of
        Inl e \<Rightarrow> Inl e
      | Inr v \<Rightarrow> (case collect rs of Inl e \<Rightarrow> Inl e | Inr vs \<Rightarrow> Inr (v # vs)))"

text \<open>
  The joblib executor \<^verbatim>\<open>Parallel(...)(tasks)\<close>. The workers finish the tasks in some
  order, here the order of the finishing times \<open>finish i\<close> of the tasks \<open>i\<close>, which is
  arbitrary; the executor hands the results back in the order of the tasks.
\<close>

definition Parallel :: "(nat \<Rightarrow> nat) \<Rightarrow> (unit \<Rightarrow> 'a) list \<Rightarrow> 'a list" where
  "Parallel finish tasks =
     (let completed = map (\<lambda>i. (i, (tasks ! i) ())) (sort_key finish [0..<length tasks])
      in map snd (sort_key fst completed))"

text \<open>
  \<^verbatim>\<open>scores.sort(key=lambda tup: tup[1])\<close>: a stable sort on the key. Comparing
  \<^verbatim>\<open>None\<close> with anything raises \<^verbatim>\<open>TypeError\<close>, and a sort of two or more elements
  compares every element.
\<close>

definition sort_scores :: "(string \<times> real option) list \<Rightarrow> exn + (string \<times> real option) list" where
  "sort_scores scores =
     (if 1 < length scores \<and> (\<exists>tup \<in> set scores. snd tup = None) then Inl TypeError
      else Inr (sort_key (\<lambda>tup. the (snd tup)) scores))"

definition grid_search :: "forecaster \<Rightarrow> (nat \<Rightarrow> nat) \<Rightarrow> real list \<Rightarrow> config list \<Rightarrow> int \<Rightarrow> bool
    \<Rightarrow> exn + (string \<times> real option) list" where
  "grid_search forecast finish data cfg_list n_test parallel =
     (case (if parallel
            then collect (Parallel finish
                   (map (\<lambda>cfg. \<lambda>_::unit. score_model forecast data n_test cfg False) cfg_list))
            else collect (map (\<lambda>cfg. score_model forecast data n_test cfg False) cfg_list)) of
        Inl e \<Rightarrow> Inl e
      | Inr scores \<Rightarrow> sort_scores (filter (\<lambda>r. snd r \<noteq> None) scores))"

subsection \<open>The configuration space\<close>

text \<open>
  Six nested \<^verbatim>\<open>for\<close> loops, the innermost appending \<^verbatim>\<open>[t,d,s,p,b,r]\<close> to
  \<open>models\<close>; each loop is a \<open>fold\<close> over its parameter list with \<open>models\<close> as the
  accumulator.
\<close>

definition exp_smoothing_configs :: "int option list \<Rightarrow> config list" where
  "exp_smoothing_configs seasonal =
     (let models = [];
          t_params = [Some ''add'', Some ''mul'', None];
          d_params = [True, False];
          s_params = [Some ''add'', Some ''mul'', None];
          p_params = seasonal;
          b_params = [True, False];
          r_params = [True, False]
      in fold (\<lambda>t. fold (\<lambda>d. fold (\<lambda>s. fold (\<lambda>p. fold (\<lambda>b. fold (\<lambda>r models.
           models @ [(t, d, s, p, b, r)]) r_params) b_params) p_params) s_params) d_params)
           t_params models)"

text \<open>The default argument \<^verbatim>\<open>seasonal=[None]\<close>.\<close>

definition exp_smoothing_configs_default :: "config list" where
  "exp_smoothing_configs_default = exp_smoothing_configs [None]"

text \<open>
  The Cartesian product of six domains in nested order, the first domain varying
  slowest: what the configuration space is compared with.
\<close>

definition cartesian6 :: "'a list \<Rightarrow> 'b list \<Rightarrow> 'c list \<Rightarrow> 'd list \<Rightarrow> 'e list \<Rightarrow> 'f list
    \<Rightarrow> ('a \<times> 'b \<times> 'c \<times> 'd \<times> 'e \<times> 'f) list" where
  "cartesian6 ts ds ss ps bs rs =
     List.product ts (List.product ds (List.product ss (List.product ps (List.product bs rs))))"

subsection \<open>The same functions on a store\<close>

text \<open>
  Python lists are objects that \<^verbatim>\<open>append\<close> and \<^verbatim>\<open>sort\<close> change in place, and the
  caller's series and candidate list are such objects. To state what a call leaves
  untouched, the functions are given a second time on an explicit store: a map from
  references to objects and the next unused reference. A slice, a comprehension and
  \<^verbatim>\<open>list()\<close> create a new object; \<^verbatim>\<open>append\<close> and \<^verbatim>\<open>sort\<close> update the object
  they are called on. (The slice of an array is a view of the array instead; the code
  only reads \<open>train\<close> and \<open>test\<close>, so nothing is written through them in either
  case.) The forecaster receives the value of the history and touches nothing in the
  store (it copies the history into an array of its own).
\<close>

type_synonym ref = nat

datatype obj =
    Floats "real list"
  | Configs "config list"
  | Scores "(string \<times> real option) list"

record store =
  objects :: "ref \<Rightarrow> obj option"
  fresh :: ref

definition new :: "obj \<Rightarrow> store \<Rightarrow> ref \<times> store" where
  "new v \<sigma> = (fresh \<sigma>, \<sigma>\<lparr>objects := (objects \<sigma>)(fresh \<sigma> \<mapsto> v), fresh := Suc (fresh \<sigma>)\<rparr>)"

definition floats :: "store \<Rightarrow> ref \<Rightarrow> real list" where
  "floats \<sigma> r = (case objects \<sigma> r of Some (Floats xs) \<Rightarrow> xs | _ \<Rightarrow> [])"

definition scores_of :: "store \<Rightarrow> ref \<Rightarrow> (string \<times> real option) list" where
  "scores_of \<sigma> r = (case objects \<sigma> r of Some (Scores rs) \<Rightarrow> rs | _ \<Rightarrow> [])"

text \<open>\<^verbatim>\<open>r.append(x)\<close>, for a list of numbers \<open>r\<close>.\<close>

definition list_append :: "ref \<Rightarrow> real \<Rightarrow> store \<Rightarrow> store" where
  "list_append r x \<sigma> = \<sigma>\<lparr>objects := (objects \<sigma>)(r \<mapsto> Floats (floats \<sigma> r @ [x]))\<rparr>"

text \<open>
  The loop of \<^verbatim>\<open>walk_forward_validation\<close> on the store; \<open>test\<close>, \<open>predictions\<close> and
  \<open>history\<close> are references. It returns the exception raised, if any.
\<close>

fun wfv_loop_st :: "forecaster \<Rightarrow> config \<Rightarrow> ref \<Rightarrow> ref \<Rightarrow> ref \<Rightarrow> nat list \<Rightarrow> store
    \<Rightarrow> exn option \<times> store" where
  "wfv_loop_st forecast cfg test predictions history [] \<sigma> = (None, \<sigma>)"
| "wfv_loop_st forecast cfg test predictions history (i # is) \<sigma> =
     (case forecast (floats \<sigma> history) cfg of
        Inl e \<Rightarrow> (Some e, \<sigma>)
      | Inr yhat \<Rightarrow>
          (let \<sigma>1 = list_append predictions yhat \<sigma>
           in if i < length (floats \<sigma>1 test)
              then wfv_loop_st forecast cfg test predictions history is
                     (list_append history (floats \<sigma>1 test ! i) \<sigma>1)
              else (Some IndexError, \<sigma>1)))"

definition walk_forward_validation_st :: "forecaster \<Rightarrow> ref \<Rightarrow> int \<Rightarrow> config \<Rightarrow> store
    \<Rightarrow> (exn + real) \<times> store" where
  "walk_forward_validation_st forecast data n_test cfg \<sigma> =
     (case objects \<sigma> data of
        Some (Floats xs) \<Rightarrow>
          (let (predictions, \<sigma>1) = new (Floats []) \<sigma>;
               (train, \<sigma>2) = new (Floats (slice_to (floats \<sigma>1 data) (- n_test))) \<sigma>1;
               (test, \<sigma>3) = new (Floats (slice_from (floats \<sigma>2 data) (- n_test))) \<sigma>2;
               (history, \<sigma>4) = new (Floats (map (\<lambda>x. x) (floats \<sigma>3 train))) \<sigma>3;
               (raised, \<sigma>5) = wfv_loop_st forecast cfg test predictions history
                                  [0..<length (floats \<sigma>4 test)] \<sigma>4
           in case raised of
                Some e \<Rightarrow> (Inl e, \<sigma>5)
              | None \<Rightarrow> (measure_rmse (floats \<sigma>5 test) (floats \<sigma>5 predictions), \<sigma>5))
      | _ \<Rightarrow> (Inl TypeError, \<sigma>))"

text \<open>
  The store at the entry of the loop of \<open>walk_forward_validation_st\<close>, for a series
  \<open>xs\<close>: four new objects, the predictions, the train slice, the test slice and the
  history.
\<close>

definition wfv_entry :: "store \<Rightarrow> real list \<Rightarrow> int \<Rightarrow> store" where
  "wfv_entry \<sigma> xs n_test =
     \<sigma>\<lparr>objects := (objects \<sigma>)(fresh \<sigma> \<mapsto> Floats [],
         Suc (fresh \<sigma>) \<mapsto> Floats (slice_to xs (- n_test)),
         Suc (Suc (fresh \<sigma>)) \<mapsto> Floats (slice_from xs (- n_test)),
         Suc (Suc (Suc (fresh \<sigma>))) \<mapsto> Floats (slice_to xs (- n_test))),
       fresh := Suc (Suc (Suc (Suc (fresh \<sigma>))))\<rparr>"

definition score_model_st :: "forecaster \<Rightarrow> ref \<Rightarrow> int \<Rightarrow> config \<Rightarrow> bool \<Rightarrow> store
    \<Rightarrow> (exn + (string \<times> real option)) \<times> store" where
  "score_model_st forecast data n_test cfg debug \<sigma> =
     (let result = None;
          key = str_cfg cfg
      in if debug then
           (case walk_forward_validation_st forecast data n_test cfg \<sigma> of
              (Inl e, \<sigma>1) \<Rightarrow> (Inl e, \<sigma>1)
            | (Inr v, \<sigma>1) \<Rightarrow> (Inr (key, Some v), \<sigma>1))
         else
           (case walk_forward_validation_st forecast data n_test cfg \<sigma> of
              (Inl e, \<sigma>1) \<Rightarrow> (Inr (key, result), \<sigma>1)
            | (Inr v, \<sigma>1) \<Rightarrow> (Inr (key, Some v), \<sigma>1)))"

text \<open>
  The sequential comprehension \<^verbatim>\<open>[score_model(data, n_test, cfg) for cfg in cfg_list]\<close>,
  each call running in the store the previous one left.
\<close>

fun score_all_st :: "forecaster \<Rightarrow> ref \<Rightarrow> int \<Rightarrow> config list \<Rightarrow> store
    \<Rightarrow> (exn + (string \<times> real option) list) \<times> store" where
  "score_all_st forecast data n_test [] \<sigma> = (Inr [], \<sigma>)"
| "score_all_st forecast data n_test (cfg # cfgs) \<sigma> =
     (case score_model_st forecast data n_test cfg False \<sigma> of
        (Inl e, \<sigma>1) \<Rightarrow> (Inl e, \<sigma>1)
      | (Inr r, \<sigma>1) \<Rightarrow>
          (case score_all_st forecast data n_test cfgs \<sigma>1 of
             (Inl e, \<sigma>2) \<Rightarrow> (Inl e, \<sigma>2)
           | (Inr rs, \<sigma>2) \<Rightarrow> (Inr (r # rs), \<sigma>2)))"

text \<open>
  \<^verbatim>\<open>grid_search\<close> on the store. In the parallel branch every task runs in a worker
  process on its own copy of the store, which is dropped with the worker; only the
  results come back. The filtered list is a new object, which \<^verbatim>\<open>sort\<close> then updates.
  The candidate list is read when the iteration starts; no call changes it afterwards,
  as shown below.
\<close>

definition grid_search_st :: "forecaster \<Rightarrow> (nat \<Rightarrow> nat) \<Rightarrow> ref \<Rightarrow> ref \<Rightarrow> int \<Rightarrow> bool \<Rightarrow> store
    \<Rightarrow> (exn + ref) \<times> store" where
  "grid_search_st forecast finish data cfg_list n_test parallel \<sigma> =
     (case objects \<sigma> cfg_list of
        Some (Configs cfgs) \<Rightarrow>
          (let (scored, \<sigma>1) =
                 (if parallel
                  then (collect (Parallel finish
                          (map (\<lambda>cfg. \<lambda>_::unit.
                             fst (score_model_st forecast data n_test cfg False \<sigma>)) cfgs)), \<sigma>)
                  else score_all_st forecast data n_test cfgs \<sigma>)
           in case scored of
                Inl e \<Rightarrow> (Inl e, \<sigma>1)
              | Inr results \<Rightarrow>
                  (let (scores, \<sigma>2) = new (Scores results) \<sigma>1;
                       (scores, \<sigma>3) =
                         new (Scores (filter (\<lambda>r. snd r \<noteq> None) (scores_of \<sigma>2 scores))) \<sigma>2
                   in case sort_scores (scores_of \<sigma>3 scores) of
                        Inl e \<Rightarrow> (Inl e, \<sigma>3)
                      | Inr ranked \<Rightarrow>
                          (Inr scores, \<sigma>3\<lparr>objects := (objects \<sigma>3)(scores \<mapsto> Scores ranked)\<rparr>)))
      | _ \<Rightarrow> (Inl TypeError, \<sigma>))"

subsection \<open>A forecaster for the examples\<close>

text \<open>
  The concrete instances below need some forecaster. This one predicts the last
  observation, one more under an additive trend, and fails on an empty history or when
  asked for a multiplicative seasonal component.
\<close>

definition last_value_forecast :: forecaster where
  "last_value_forecast history cfg =
     (case cfg of (t, d, s, p, b, r) \<Rightarrow>
        if history = [] \<or> s = Some ''mul'' then Inl (LibraryError ''fit failed'')
        else Inr (last history + (if t = Some ''add'' then 1 else 0)))"

subsection \<open>The score records of the candidates\<close>

text \<open>
  What the ranking is stated against: the score record of every candidate, in the order
  of the candidate list, with an absent error where the evaluation raises.
\<close>

definition candidate_scores :: "forecaster \<Rightarrow> real list \<Rightarrow> int \<Rightarrow> config list
    \<Rightarrow> (string \<times> real option) list" where
  "candidate_scores forecast data n_test cfg_list =
     map (\<lambda>cfg. (str_cfg cfg,
            case walk_forward_validation forecast data n_test cfg of
              Inl e \<Rightarrow> None
            | Inr v \<Rightarrow> Some v)) cfg_list"

section \<open>Properties\<close>

subsection \<open>Slices and the split\<close>

lemma slice_bound_zero: "slice_bound len 0 = 0"
  by (simp add: slice_bound_def)

lemma slice_bound_neg:
  "0 < n \<Longrightarrow> slice_bound len (- n) = (if int len < n then 0 else nat (int len - n))"
  by (simp add: slice_bound_def)

lemma train_test_split_append: "fst (train_test_split data n) @ snd (train_test_split data n) = data"
  by (simp add: train_test_split_def slice_to_def slice_from_def)

lemma train_test_split_valid:
  assumes "0 < n" "n < int (length data)"
  shows "train_test_split data n = (take (length data - nat n) data, drop (length data - nat n) data)"
proof -
  have "slice_bound (length data) (- n) = length data - nat n"
    using assms by (simp add: slice_bound_neg nat_diff_distrib')
  then show ?thesis
    by (simp add: train_test_split_def slice_to_def slice_from_def)
qed

lemma train_test_split_all_test:
  assumes "int (length data) \<le> n_test"
  shows "train_test_split data n_test = ([], data)"
proof -
  have "slice_bound (length data) (- n_test) = 0"
    using assms by (auto simp: slice_bound_def)
  then show ?thesis
    by (simp add: train_test_split_def slice_to_def slice_from_def)
qed

text \<open>
  Claim C10. With \<open>n_test = 0\<close> the split returns the empty list as the train partition
  and the whole sequence as the test partition, since \<^verbatim>\<open>data[:-0]\<close> is \<^verbatim>\<open>data[:0]\<close>
  and \<^verbatim>\<open>data[-0:]\<close> is \<^verbatim>\<open>data[0:]\<close>; for a non-empty sequence this is not the split
  with everything in train and nothing in test.
\<close>

theorem train_test_split_zero:
  "train_test_split data 0 = ([], data) \<and>
   (data \<noteq> [] \<longrightarrow> train_test_split data 0 \<noteq> (data, []))"
  by (simp add: train_test_split_def slice_to_def slice_from_def slice_bound_zero)

theorem train_test_split_zero_witness:
  "[3, 1, 2] \<noteq> ([] :: real list) \<and> train_test_split [3, 1, 2] 0 = ([], [3, 1, 2]) \<and>
   train_test_split [3, 1, 2] 0 \<noteq> ([3, 1, 2], [])"
  using train_test_split_zero [of "[3, 1, 2]"] by simp

subsection \<open>Walk-forward validation\<close>

lemma wfv_loop_append:
  "wfv_loop forecast cfg test (is @ js) st =
     (case wfv_loop forecast cfg test is st of
        Inl e \<Rightarrow> Inl e
      | Inr st' \<Rightarrow> wfv_loop forecast cfg test js st')"
proof (induction "is" arbitrary: st)
  case Nil
  then show ?case by simp
next
  case (Cons i "is")
  obtain predictions history where st: "st = (predictions, history)"
    by (cases st)
  show ?case
    by (simp add: st Cons.IH split: sum.splits)
qed

lemma wfv_loop_upt_step:
  assumes "i < length test"
  shows "wfv_loop forecast cfg test [0..<Suc i] st =
     (case wfv_loop forecast cfg test [0..<i] st of
        Inl e \<Rightarrow> Inl e
      | Inr (predictions, history) \<Rightarrow>
          (case forecast history cfg of
             Inl e \<Rightarrow> Inl e
           | Inr yhat \<Rightarrow> Inr (predictions @ [yhat], history @ [test ! i])))"
  using assms by (simp add: wfv_loop_append split: sum.splits)

lemma wfv_loop_prefix:
  assumes "i \<le> length test"
    and "wfv_loop forecast cfg test [0..<i] ([], train) = Inr (preds, hist)"
  shows "hist = train @ take i test \<and> length preds = i \<and>
         (\<forall>j<i. forecast (train @ take j test) cfg = Inr (preds ! j))"
  using assms
proof (induction i arbitrary: preds hist)
  case 0
  then show ?case by simp
next
  case (Suc i)
  from Suc.prems(1) have i: "i < length test" by simp
  from Suc.prems(2) obtain ps h yhat where
    run: "wfv_loop forecast cfg test [0..<i] ([], train) = Inr (ps, h)"
    and fc: "forecast h cfg = Inr yhat"
    and preds: "preds = ps @ [yhat]" and hist: "hist = h @ [test ! i]"
    by (auto simp: wfv_loop_upt_step [OF i] simp del: upt_Suc split: sum.splits)
  from Suc.IH [OF _ run] i have
    h: "h = train @ take i test" and len: "length ps = i"
    and old: "\<forall>j<i. forecast (train @ take j test) cfg = Inr (ps ! j)"
    by simp_all
  have "hist = train @ take (Suc i) test"
    using hist h i by (simp add: take_Suc_conv_app_nth)
  moreover have "length preds = Suc i"
    using preds len by simp
  moreover have "\<forall>j<Suc i. forecast (train @ take j test) cfg = Inr (preds ! j)"
  proof (intro allI impI)
    fix j assume "j < Suc i"
    then consider "j < i" | "j = i" by linarith
    then show "forecast (train @ take j test) cfg = Inr (preds ! j)"
    proof cases
      case 1
      then show ?thesis using old preds len by (simp add: nth_append)
    next
      case 2
      then show ?thesis using fc h preds len by (simp add: nth_append)
    qed
  qed
  ultimately show ?case by blast
qed

lemma wfv_loop_total:
  assumes "i \<le> length test"
    and "\<forall>j<i. \<exists>y. forecast (train @ take j test) cfg = Inr y"
  shows "\<exists>preds hist. wfv_loop forecast cfg test [0..<i] ([], train) = Inr (preds, hist)"
  using assms
proof (induction i)
  case 0
  then show ?case by simp
next
  case (Suc i)
  from Suc.prems(1) have i: "i < length test" by simp
  from Suc obtain ps h where
    run: "wfv_loop forecast cfg test [0..<i] ([], train) = Inr (ps, h)"
    by fastforce
  from wfv_loop_prefix [OF _ run] i have h: "h = train @ take i test"
    by simp
  from Suc.prems(2) obtain y where "forecast (train @ take i test) cfg = Inr y"
    by blast
  then show ?case
    by (simp add: wfv_loop_upt_step [OF i] run h del: upt_Suc)
qed

lemma wfv_loop_fails:
  assumes "i < length test"
    and "forecast (train @ take i test) cfg = Inl e"
  shows "\<exists>e'. wfv_loop forecast cfg test [0..<length test] ([], train) = Inl e'"
proof (cases "wfv_loop forecast cfg test [0..<length test] ([], train)")
  case (Inl a)
  then show ?thesis by blast
next
  case (Inr st)
  obtain preds hist where "st = (preds, hist)" by (cases st)
  with Inr wfv_loop_prefix [of "length test" test forecast cfg train preds hist] assms
  show ?thesis by auto
qed

lemma mean_squared_error_nonneg: "mean_squared_error a p = Inr m \<Longrightarrow> 0 \<le> m"
  by (auto simp: mean_squared_error_def intro!: divide_nonneg_nonneg sum_list_nonneg split: if_splits)

lemma measure_rmse_nonneg: "measure_rmse actual predicted = Inr e \<Longrightarrow> 0 \<le> e"
  by (auto simp: measure_rmse_def math_sqrt_def split: sum.splits if_splits)

lemma measure_rmse_defined:
  "length actual = length predicted \<Longrightarrow> actual \<noteq> [] \<Longrightarrow> \<exists>e. measure_rmse actual predicted = Inr e"
  using mean_squared_error_nonneg [of actual predicted]
  by (auto simp: measure_rmse_def math_sqrt_def mean_squared_error_def split: sum.splits)

lemma walk_forward_validation_loop:
  assumes "train_test_split data n_test = (train, test)"
  shows "walk_forward_validation forecast data n_test cfg =
     (case wfv_loop forecast cfg test [0..<length test] ([], train) of
        Inl e \<Rightarrow> Inl e
      | Inr (preds, hist) \<Rightarrow> measure_rmse test preds)"
  using assms by (simp add: walk_forward_validation_def)

text \<open>
  Claim C1. For \<open>0 < n_test < length series\<close> the evaluation makes exactly \<open>n_test\<close>
  forecast steps, one after the other: the loop runs over the indices \<open>0 ..< n_test\<close>;
  its run is the run of the first \<open>i\<close> steps followed by the remaining ones; after the
  first \<open>i\<close> steps, that is before step \<open>i\<close>, the history is train followed by the first
  \<open>i\<close> values of test (the observed values, not the forecasts), there are \<open>i\<close>
  predictions, and prediction \<open>j\<close> is the forecast from train followed by the first \<open>j\<close>
  values of test; at completion there are \<open>n_test\<close> predictions and the history is the
  whole series. The evaluation does complete when no forecast on these histories raises.
\<close>

theorem walk_forward_steps:
  assumes "0 < n_test" and "n_test < int (length series)"
    and "train_test_split series n_test = (train, test)"
  shows "length test = nat n_test \<and> train @ test = series \<and>
    walk_forward_validation forecast series n_test cfg =
      (case wfv_loop forecast cfg test [0..<nat n_test] ([], train) of
         Inl e \<Rightarrow> Inl e
       | Inr (preds, hist) \<Rightarrow> measure_rmse test preds) \<and>
    (\<forall>i\<le>nat n_test.
       wfv_loop forecast cfg test [0..<nat n_test] ([], train) =
         (case wfv_loop forecast cfg test [0..<i] ([], train) of
            Inl e \<Rightarrow> Inl e
          | Inr st \<Rightarrow> wfv_loop forecast cfg test [i..<nat n_test] st)) \<and>
    (\<forall>i\<le>nat n_test. \<forall>preds hist.
       wfv_loop forecast cfg test [0..<i] ([], train) = Inr (preds, hist) \<longrightarrow>
         hist = train @ take i test \<and> length preds = i \<and>
         (\<forall>j<i. forecast (train @ take j test) cfg = Inr (preds ! j))) \<and>
    (\<forall>preds hist.
       wfv_loop forecast cfg test [0..<nat n_test] ([], train) = Inr (preds, hist) \<longrightarrow>
         length preds = nat n_test \<and> hist = series \<and> length hist = length series) \<and>
    ((\<forall>j<nat n_test. \<exists>y. forecast (train @ take j test) cfg = Inr y) \<longrightarrow>
       (\<exists>preds hist e. wfv_loop forecast cfg test [0..<nat n_test] ([], train) = Inr (preds, hist) \<and>
          walk_forward_validation forecast series n_test cfg = Inr e))"
proof -
  from assms have split: "train = take (length series - nat n_test) series"
      "test = drop (length series - nat n_test) series"
    by (simp_all add: train_test_split_valid)
  from assms(1,2) have len: "length test = nat n_test"
    by (simp add: split)
  have app: "train @ test = series"
    by (simp add: split)
  have wfv: "walk_forward_validation forecast series n_test cfg =
      (case wfv_loop forecast cfg test [0..<nat n_test] ([], train) of
         Inl e \<Rightarrow> Inl e
       | Inr (preds, hist) \<Rightarrow> measure_rmse test preds)"
    using walk_forward_validation_loop [OF assms(3)] len by simp
  have decomp: "\<forall>i\<le>nat n_test.
       wfv_loop forecast cfg test [0..<nat n_test] ([], train) =
         (case wfv_loop forecast cfg test [0..<i] ([], train) of
            Inl e \<Rightarrow> Inl e
          | Inr st \<Rightarrow> wfv_loop forecast cfg test [i..<nat n_test] st)"
  proof (intro allI impI)
    fix i assume "i \<le> nat n_test"
    then have "[0..<nat n_test] = [0..<i] @ [i..<nat n_test]"
      using upt_add_eq_append [of 0 i "nat n_test - i"] by simp
    then show "wfv_loop forecast cfg test [0..<nat n_test] ([], train) =
         (case wfv_loop forecast cfg test [0..<i] ([], train) of
            Inl e \<Rightarrow> Inl e
          | Inr st \<Rightarrow> wfv_loop forecast cfg test [i..<nat n_test] st)"
      using wfv_loop_append [of forecast cfg test "[0..<i]" "[i..<nat n_test]"] by simp
  qed
  have prefix: "\<forall>i\<le>nat n_test. \<forall>preds hist.
       wfv_loop forecast cfg test [0..<i] ([], train) = Inr (preds, hist) \<longrightarrow>
         hist = train @ take i test \<and> length preds = i \<and>
         (\<forall>j<i. forecast (train @ take j test) cfg = Inr (preds ! j))"
  proof (intro allI impI)
    fix i preds hist
    assume "i \<le> nat n_test"
      and "wfv_loop forecast cfg test [0..<i] ([], train) = Inr (preds, hist)"
    then show "hist = train @ take i test \<and> length preds = i \<and>
         (\<forall>j<i. forecast (train @ take j test) cfg = Inr (preds ! j))"
      using wfv_loop_prefix [of i test forecast cfg train preds hist] len by simp
  qed
  have final: "\<forall>preds hist.
       wfv_loop forecast cfg test [0..<nat n_test] ([], train) = Inr (preds, hist) \<longrightarrow>
         length preds = nat n_test \<and> hist = series \<and> length hist = length series"
    using wfv_loop_prefix [of "nat n_test" test forecast cfg train] len app by auto
  have total: "(\<forall>j<nat n_test. \<exists>y. forecast (train @ take j test) cfg = Inr y) \<longrightarrow>
       (\<exists>preds hist e. wfv_loop forecast cfg test [0..<nat n_test] ([], train) = Inr (preds, hist) \<and>
          walk_forward_validation forecast series n_test cfg = Inr e)"
  proof
    assume "\<forall>j<nat n_test. \<exists>y. forecast (train @ take j test) cfg = Inr y"
    with wfv_loop_total [of "nat n_test" test forecast train cfg] len
    obtain preds hist where
      run: "wfv_loop forecast cfg test [0..<nat n_test] ([], train) = Inr (preds, hist)"
      by auto
    with final have "length preds = nat n_test" by blast
    with len assms(1) have "length test = length preds" "test \<noteq> []" by auto
    from measure_rmse_defined [OF this] obtain e where "measure_rmse test preds = Inr e" ..
    with run wfv show "\<exists>preds hist e.
        wfv_loop forecast cfg test [0..<nat n_test] ([], train) = Inr (preds, hist) \<and>
        walk_forward_validation forecast series n_test cfg = Inr e"
      by simp
  qed
  from len app wfv decomp prefix final total show ?thesis by blast
qed

theorem walk_forward_steps_witness:
  "(0::int) < 2 \<and> (2::int) < int (length [1, 2, 3, 4 :: real]) \<and>
   train_test_split [1, 2, 3, 4] 2 = ([1, 2], [3, 4]) \<and>
   last_value_forecast ([1, 2] @ take 0 [3, 4]) (None, False, None, None, False, False)
     = Inr 2 \<and>
   last_value_forecast ([1, 2] @ take 1 [3, 4]) (None, False, None, None, False, False)
     = Inr 3 \<and>
   wfv_loop last_value_forecast (None, False, None, None, False, False) [3, 4] [0..<nat 2]
     ([], [1, 2]) = Inr ([2, 3], [1, 2, 3, 4]) \<and>
   length [2, 3 :: real] = nat 2 \<and> length [1, 2, 3, 4 :: real] = length [1, 2, 3, 4 :: real] \<and>
   last_value_forecast ([1, 2] @ take 1 [3, 4]) (None, False, None, None, False, False)
     = Inr ([2, 3] ! 1) \<and>
   (\<exists>e. walk_forward_validation last_value_forecast [1, 2, 3, 4] 2
        (None, False, None, None, False, False) = Inr e)"
proof -
  let ?cfg = "(None, False, None, None, False, False) :: config"
  have h1: "(0::int) < 2" and h2: "(2::int) < int (length [1, 2, 3, 4 :: real])"
    by simp_all
  have h3: "train_test_split [1, 2, 3, 4] 2 = ([1, 2], [3, 4])"
    by (simp add: train_test_split_def slice_to_def slice_from_def slice_bound_def)
  have ok: "\<forall>j<nat 2. \<exists>y. last_value_forecast ([1, 2] @ take j [3, 4]) ?cfg = Inr y"
    by (simp add: last_value_forecast_def)
  have run: "wfv_loop last_value_forecast ?cfg [3, 4] [0..<nat 2] ([], [1, 2])
      = Inr ([2, 3], [1, 2, 3, 4])"
    by (simp add: last_value_forecast_def upt_rec)
  note steps = walk_forward_steps [OF h1 h2 h3, of last_value_forecast ?cfg]
  from steps run have "length [2, 3 :: real] = nat 2 \<and>
      length [1, 2, 3, 4 :: real] = length [1, 2, 3, 4 :: real]"
    by simp
  moreover from steps run have
    "last_value_forecast ([1, 2] @ take 1 [3, 4]) ?cfg = Inr ([2, 3] ! 1)"
    by (simp add: last_value_forecast_def)
  moreover from steps ok have
    "\<exists>e. walk_forward_validation last_value_forecast [1, 2, 3, 4] 2 ?cfg = Inr e"
    by blast
  moreover have "last_value_forecast ([1, 2] @ take 0 [3, 4]) ?cfg = Inr 2"
    and "last_value_forecast ([1, 2] @ take 1 [3, 4]) ?cfg = Inr 3"
    by (simp_all add: last_value_forecast_def)
  ultimately show ?thesis
    using h1 h2 h3 run by blast
qed

text \<open>
  Claim C8. Whenever the evaluation of a configuration completes, the error returned by
  \<open>walk_forward_validation\<close>, the root-mean-square error of \<open>measure_rmse\<close>, is
  non-negative.
\<close>

theorem walk_forward_error_nonneg:
  "walk_forward_validation forecast data n_test cfg = Inr e \<Longrightarrow> 0 \<le> e"
  by (auto simp: walk_forward_validation_def dest: measure_rmse_nonneg split: prod.splits sum.splits)

theorem walk_forward_error_nonneg_witness:
  "walk_forward_validation last_value_forecast [1, 2, 3, 4] 2
     (None, False, None, None, False, False) = Inr 1 \<and> (0::real) \<le> 1"
proof -
  have run: "walk_forward_validation last_value_forecast [1, 2, 3, 4] 2
     (None, False, None, None, False, False) = Inr 1"
    by (simp add: walk_forward_validation_def train_test_split_def slice_to_def slice_from_def
        slice_bound_def last_value_forecast_def measure_rmse_def mean_squared_error_def
        math_sqrt_def)
  from walk_forward_error_nonneg [OF run] run show ?thesis by simp
qed

subsection \<open>Scoring\<close>

lemma score_model_no_debug:
  "score_model forecast data n_test cfg False =
     Inr (str_cfg cfg,
          case walk_forward_validation forecast data n_test cfg of
            Inl e \<Rightarrow> None
          | Inr v \<Rightarrow> Some v)"
  by (simp add: score_model_def split: sum.splits)

lemma score_model_debug:
  "score_model forecast data n_test cfg True =
     (case walk_forward_validation forecast data n_test cfg of
        Inl e \<Rightarrow> Inl e
      | Inr v \<Rightarrow> Inr (str_cfg cfg, Some v))"
  by (simp add: score_model_def)

text \<open>
  Claim C4. An exception leaves \<open>score_model\<close> exactly when debug mode is active and the
  evaluation raised it: without debug no exception leaves it, and an exception raised by
  the evaluation becomes the pair of the key and an absent error; with debug the
  exception of the evaluation propagates as it is. An evaluation that completes gives
  the key with its error in both modes.
\<close>

theorem score_model_exceptions:
  "score_model forecast data n_test cfg False \<noteq> Inl e \<and>
   (walk_forward_validation forecast data n_test cfg = Inl e \<longrightarrow>
      score_model forecast data n_test cfg False = Inr (str_cfg cfg, None) \<and>
      score_model forecast data n_test cfg True = Inl e) \<and>
   (walk_forward_validation forecast data n_test cfg = Inr v \<longrightarrow>
      score_model forecast data n_test cfg debug = Inr (str_cfg cfg, Some v)) \<and>
   (score_model forecast data n_test cfg debug = Inl e \<longleftrightarrow>
      debug \<and> walk_forward_validation forecast data n_test cfg = Inl e)"
  by (cases debug) (auto simp: score_model_no_debug score_model_debug split: sum.splits)

theorem score_model_exceptions_witness:
  "walk_forward_validation last_value_forecast [1, 2, 3, 4] 2
     (None, False, Some ''mul'', None, False, False) = Inl (LibraryError ''fit failed'') \<and>
   score_model last_value_forecast [1, 2, 3, 4] 2 (None, False, Some ''mul'', None, False, False) False
     = Inr (str_cfg (None, False, Some ''mul'', None, False, False), None) \<and>
   score_model last_value_forecast [1, 2, 3, 4] 2 (None, False, Some ''mul'', None, False, False) True
     = Inl (LibraryError ''fit failed'') \<and>
   walk_forward_validation last_value_forecast [1, 2, 3, 4] 2
     (None, False, None, None, False, False) = Inr 1 \<and>
   score_model last_value_forecast [1, 2, 3, 4] 2 (None, False, None, None, False, False) True
     = Inr (str_cfg (None, False, None, None, False, False), Some 1)"
proof -
  let ?bad = "(None, False, Some ''mul'', None, False, False) :: config"
  let ?good = "(None, False, None, None, False, False) :: config"
  have bad: "walk_forward_validation last_value_forecast [1, 2, 3, 4] 2 ?bad
      = Inl (LibraryError ''fit failed'')"
    by (simp add: walk_forward_validation_def train_test_split_def slice_to_def slice_from_def
        slice_bound_def last_value_forecast_def)
  have good: "walk_forward_validation last_value_forecast [1, 2, 3, 4] 2 ?good = Inr 1"
    by (simp add: walk_forward_validation_def train_test_split_def slice_to_def slice_from_def
        slice_bound_def last_value_forecast_def measure_rmse_def mean_squared_error_def
        math_sqrt_def)
  from score_model_exceptions [of last_value_forecast "[1, 2, 3, 4]" 2 ?bad
      "LibraryError ''fit failed''" _ True] bad
  have "score_model last_value_forecast [1, 2, 3, 4] 2 ?bad False = Inr (str_cfg ?bad, None)"
    and "score_model last_value_forecast [1, 2, 3, 4] 2 ?bad True = Inl (LibraryError ''fit failed'')"
    by blast+
  moreover from score_model_exceptions [of last_value_forecast "[1, 2, 3, 4]" 2 ?good _ 1 True] good
  have "score_model last_value_forecast [1, 2, 3, 4] 2 ?good True = Inr (str_cfg ?good, Some 1)"
    by blast
  ultimately show ?thesis
    using bad good by blast
qed

subsection \<open>Grid search\<close>

lemma collect_map_Inr: "collect (map (\<lambda>x. Inr (g x)) xs) = Inr (map g xs)"
  by (induction xs) simp_all

lemma Parallel_in_task_order: "Parallel finish tasks = map (\<lambda>t. t ()) tasks"
proof -
  let ?n = "length tasks"
  let ?run = "\<lambda>i. (i, (tasks ! i) ())"
  let ?completed = "map ?run (sort_key finish [0..<?n])"
  have "mset ?completed = mset (map ?run [0..<?n])"
    by simp
  moreover have "inj_on fst (set ?completed)"
    by (auto simp: inj_on_def)
  moreover have "sorted (map fst (map ?run [0..<?n]))"
    by (simp add: comp_def)
  ultimately have "sort_key fst ?completed = map ?run [0..<?n]"
    by (rule sort_key_inj_key_eq)
  then have "Parallel finish tasks = map (\<lambda>i. (tasks ! i) ()) [0..<?n]"
    by (simp add: Parallel_def comp_def)
  also have "\<dots> = map (\<lambda>t. t ()) (map (\<lambda>i. tasks ! i) [0..<?n])"
    by (simp add: comp_def)
  also have "\<dots> = map (\<lambda>t. t ()) tasks"
    by (simp add: map_nth)
  finally show ?thesis .
qed

lemma sort_scores_present:
  "\<forall>tup \<in> set scores. snd tup \<noteq> None \<Longrightarrow>
   sort_scores scores = Inr (sort_key (\<lambda>tup. the (snd tup)) scores)"
  by (auto simp: sort_scores_def)

lemma grid_search_ranked:
  "grid_search forecast finish data cfg_list n_test parallel =
     Inr (sort_key (\<lambda>tup. the (snd tup))
           (filter (\<lambda>r. snd r \<noteq> None) (candidate_scores forecast data n_test cfg_list)))"
proof -
  let ?score = "\<lambda>cfg. (str_cfg cfg,
            case walk_forward_validation forecast data n_test cfg of
              Inl e \<Rightarrow> None
            | Inr v \<Rightarrow> Some v)"
  have seq: "collect (map (\<lambda>cfg. score_model forecast data n_test cfg False) cfg_list) =
      Inr (candidate_scores forecast data n_test cfg_list)"
    using collect_map_Inr [of ?score cfg_list]
    by (simp add: score_model_no_debug candidate_scores_def)
  have par: "collect (Parallel finish
        (map (\<lambda>cfg. \<lambda>_::unit. score_model forecast data n_test cfg False) cfg_list)) =
      Inr (candidate_scores forecast data n_test cfg_list)"
    using seq by (simp add: Parallel_in_task_order comp_def)
  show ?thesis
    by (simp add: grid_search_def seq par sort_scores_present)
qed

lemma sorted_map_hd_least:
  "sorted (map f xs) \<Longrightarrow> x \<in> set xs \<Longrightarrow> f (hd xs) \<le> f x"
  by (cases xs) auto

lemma not_Inr_iff: "(\<forall>v. w \<noteq> Inr v) \<longleftrightarrow> (\<exists>e. w = Inl e)"
  by (cases w) auto

text \<open>
  Claim C2. The list returned by \<open>grid_search\<close> holds no record with an absent error,
  is sorted by error in non-decreasing order with the lowest error first, consists of
  exactly the candidates' records with a present error, and the records with the same
  error stand in the order of the candidate list.
\<close>

theorem grid_search_ranking:
  "\<exists>out. grid_search forecast finish data cfg_list n_test parallel = Inr out \<and>
     (\<forall>r \<in> set out. snd r \<noteq> None) \<and>
     sorted (map (\<lambda>r. the (snd r)) out) \<and>
     (\<forall>r \<in> set out. the (snd (hd out)) \<le> the (snd r)) \<and>
     mset out = mset (filter (\<lambda>r. snd r \<noteq> None) (candidate_scores forecast data n_test cfg_list)) \<and>
     (\<forall>e. filter (\<lambda>r. snd r = Some e) out =
          filter (\<lambda>r. snd r = Some e) (candidate_scores forecast data n_test cfg_list))"
proof -
  let ?present = "filter (\<lambda>r. snd r \<noteq> None) (candidate_scores forecast data n_test cfg_list)"
  let ?key = "\<lambda>r :: string \<times> real option. the (snd r)"
  let ?out = "sort_key ?key ?present"
  have run: "grid_search forecast finish data cfg_list n_test parallel = Inr ?out"
    by (rule grid_search_ranked)
  have present: "\<forall>r \<in> set ?out. snd r \<noteq> None"
    by simp
  have srt: "sorted (map ?key ?out)"
    by (rule sorted_sort_key)
  have first: "\<forall>r \<in> set ?out. ?key (hd ?out) \<le> ?key r"
    using sorted_map_hd_least [OF srt] by blast
  have perm: "mset ?out = mset ?present"
    by simp
  have stable: "\<forall>e. filter (\<lambda>r. snd r = Some e) ?out =
      filter (\<lambda>r. snd r = Some e) (candidate_scores forecast data n_test cfg_list)"
  proof
    fix e :: real
    have "filter (\<lambda>r. snd r = Some e) ?out = filter (\<lambda>r. snd r = Some e) (filter (\<lambda>r. ?key r = e) ?out)"
      by (auto intro!: filter_cong simp: )
    also have "\<dots> = filter (\<lambda>r. snd r = Some e) (filter (\<lambda>r. ?key r = e) ?present)"
      by (simp only: sort_key_stable)
    also have "\<dots> = filter (\<lambda>r. snd r = Some e) (candidate_scores forecast data n_test cfg_list)"
      by (auto intro!: filter_cong)
    finally show "filter (\<lambda>r. snd r = Some e) ?out =
      filter (\<lambda>r. snd r = Some e) (candidate_scores forecast data n_test cfg_list)" .
  qed
  from run present srt first perm stable show ?thesis
    by blast
qed

theorem grid_search_ranking_witness:
  "grid_search last_value_forecast (\<lambda>i. 3 - i) [1, 2, 3, 4]
     [(None, False, None, None, False, False), (None, True, Some ''mul'', None, False, False),
      (Some ''add'', False, None, None, False, False), (None, True, None, None, True, False)] 2 True
     = Inr [(str_cfg (Some ''add'', False, None, None, False, False), Some 0),
            (str_cfg (None, False, None, None, False, False), Some 1),
            (str_cfg (None, True, None, None, True, False), Some 1)] \<and>
   sorted (map (\<lambda>r. the (snd r))
     [(str_cfg (Some ''add'', False, None, None, False, False), Some 0),
      (str_cfg (None, False, None, None, False, False), Some (1::real)),
      (str_cfg (None, True, None, None, True, False), Some 1)])"
proof -
  let ?c1 = "(None, False, None, None, False, False) :: config"
  let ?c2 = "(None, True, Some ''mul'', None, False, False) :: config"
  let ?c3 = "(Some ''add'', False, None, None, False, False) :: config"
  let ?c4 = "(None, True, None, None, True, False) :: config"
  let ?ranked = "[(str_cfg ?c3, Some 0), (str_cfg ?c1, Some (1::real)), (str_cfg ?c4, Some 1)]"
  have run: "grid_search last_value_forecast (\<lambda>i. 3 - i) [1, 2, 3, 4] [?c1, ?c2, ?c3, ?c4] 2 True
      = Inr ?ranked"
    by (simp add: grid_search_def Parallel_def score_model_def walk_forward_validation_def
        train_test_split_def slice_to_def slice_from_def slice_bound_def last_value_forecast_def
        measure_rmse_def mean_squared_error_def math_sqrt_def sort_scores_def
        del: str_cfg.simps)
  from grid_search_ranking [of last_value_forecast "\<lambda>i. 3 - i" "[1, 2, 3, 4]"
      "[?c1, ?c2, ?c3, ?c4]" 2 True]
  obtain out where out: "grid_search last_value_forecast (\<lambda>i. 3 - i) [1, 2, 3, 4]
        [?c1, ?c2, ?c3, ?c4] 2 True = Inr out"
    and srt: "sorted (map (\<lambda>r. the (snd r)) out)"
    by blast
  from out run have "out = ?ranked"
    by simp
  with srt run show ?thesis
    by simp
qed

text \<open>
  Claim C5. With the parallel flag set and with it unset, whatever the order in which
  the workers finish, \<open>grid_search\<close> returns the same ranked list.
\<close>

theorem grid_search_parallel_sequential:
  "grid_search forecast finish data cfg_list n_test True =
   grid_search forecast finish' data cfg_list n_test False"
  by (simp add: grid_search_ranked)

subsection \<open>Inputs the search does not reject\<close>

text \<open>
  Claim C6 as stated fails: with \<open>n_test\<close> equal to the length of the series the search
  enters the evaluation, the forecaster raises on the empty history, and the search
  returns the empty ranking instead of raising.
\<close>

theorem grid_search_no_insufficient_data_error:
  "int (length [1, 1 :: real]) \<le> 2 \<and>
   train_test_split [1, 1] 2 = ([], [1, 1]) \<and>
   walk_forward_validation last_value_forecast [1, 1] 2 (None, False, None, None, False, False)
     = Inl (LibraryError ''fit failed'') \<and>
   grid_search last_value_forecast id [1, 1] [(None, False, None, None, False, False)] 2 False
     = Inr []"
  by (simp add: grid_search_def score_model_def walk_forward_validation_def train_test_split_def
      slice_to_def slice_from_def slice_bound_def last_value_forecast_def sort_scores_def
      del: str_cfg.simps)

text \<open>
  Claim C6, as the code has it. Nothing validates \<open>n_test\<close> against the length of the
  series, and no exception of the search stands for insufficient data. When \<open>n_test\<close>
  is at least the length of the series, the split gives an empty train partition and the
  whole series as test, every candidate is evaluated from an empty history, a forecaster
  that raises on the empty history makes the score of the candidate absent, and
  \<open>grid_search\<close> returns without an exception the ranked records of the candidates whose
  evaluation completed.
\<close>

theorem grid_search_no_split_validation:
  assumes "int (length data) \<le> n_test"
  shows "train_test_split data n_test = ([], data) \<and>
    walk_forward_validation forecast data n_test cfg =
      (case wfv_loop forecast cfg data [0..<length data] ([], []) of
         Inl e \<Rightarrow> Inl e
       | Inr (preds, hist) \<Rightarrow> measure_rmse data preds) \<and>
    (data \<noteq> [] \<longrightarrow> forecast [] cfg = Inl e \<longrightarrow>
       walk_forward_validation forecast data n_test cfg = Inl e \<and>
       score_model forecast data n_test cfg False = Inr (str_cfg cfg, None)) \<and>
    grid_search forecast finish data cfg_list n_test parallel =
      Inr (sort_key (\<lambda>tup. the (snd tup))
            (filter (\<lambda>r. snd r \<noteq> None) (candidate_scores forecast data n_test cfg_list)))"
proof -
  have split: "train_test_split data n_test = ([], data)"
    using assms by (rule train_test_split_all_test)
  have wfv: "walk_forward_validation forecast data n_test cfg =
      (case wfv_loop forecast cfg data [0..<length data] ([], []) of
         Inl e \<Rightarrow> Inl e
       | Inr (preds, hist) \<Rightarrow> measure_rmse data preds)"
    using walk_forward_validation_loop [OF split] .
  have first: "walk_forward_validation forecast data n_test cfg = Inl e \<and>
       score_model forecast data n_test cfg False = Inr (str_cfg cfg, None)"
    if "data \<noteq> []" "forecast [] cfg = Inl e"
  proof -
    from that(1) have "[0..<length data] = 0 # [Suc 0..<length data]"
      by (simp add: upt_conv_Cons)
    with that(2) have "walk_forward_validation forecast data n_test cfg = Inl e"
      by (simp add: wfv)
    then show ?thesis
      by (simp add: score_model_no_debug)
  qed
  from split wfv first grid_search_ranked [of forecast finish data cfg_list n_test parallel]
  show ?thesis
    by blast
qed

theorem grid_search_no_split_validation_witness:
  "int (length [1, 1 :: real]) \<le> 2 \<and> [1, 1] \<noteq> ([] :: real list) \<and>
   last_value_forecast [] (None, False, None, None, False, False) = Inl (LibraryError ''fit failed'') \<and>
   train_test_split [1, 1] 2 = ([], [1, 1]) \<and>
   walk_forward_validation last_value_forecast [1, 1] 2 (None, False, None, None, False, False)
     = Inl (LibraryError ''fit failed'') \<and>
   score_model last_value_forecast [1, 1] 2 (None, False, None, None, False, False) False
     = Inr (str_cfg (None, False, None, None, False, False), None)"
proof -
  let ?cfg = "(None, False, None, None, False, False) :: config"
  have h: "int (length [1, 1 :: real]) \<le> 2"
    by simp
  have ne: "[1, 1] \<noteq> ([] :: real list)"
    by simp
  have fc: "last_value_forecast [] ?cfg = Inl (LibraryError ''fit failed'')"
    by (simp add: last_value_forecast_def)
  from grid_search_no_split_validation [OF h, of last_value_forecast ?cfg
      "LibraryError ''fit failed''" id "[]" False] ne fc
  show ?thesis
    by simp
qed

text \<open>
  Claim C7 as stated fails: when the only candidate fails, the search returns the empty
  list and raises nothing, the same value it returns for an empty candidate list.
\<close>

theorem grid_search_no_empty_result_error:
  "walk_forward_validation last_value_forecast [1, 2, 3, 4] 2
     (None, False, Some ''mul'', None, False, False) = Inl (LibraryError ''fit failed'') \<and>
   grid_search last_value_forecast id [1, 2, 3, 4] [(None, False, Some ''mul'', None, False, False)] 2 False
     = Inr [] \<and>
   grid_search last_value_forecast id [1, 2, 3, 4] [] 2 False = Inr []"
  by (simp add: grid_search_def score_model_def walk_forward_validation_def train_test_split_def
      slice_to_def slice_from_def slice_bound_def last_value_forecast_def sort_scores_def
      del: str_cfg.simps)

text \<open>
  Claim C7, as the code has it. \<open>grid_search\<close> never raises, so no failure of a
  candidate aborts the batch; it returns one record for every candidate whose evaluation
  completed, and the returned list is empty exactly when the evaluation of every
  candidate raised (which includes an empty candidate list).
\<close>

theorem grid_search_all_fail:
  "\<exists>out. grid_search forecast finish data cfg_list n_test parallel = Inr out \<and>
     (out = [] \<longleftrightarrow>
        (\<forall>cfg \<in> set cfg_list. \<exists>e. walk_forward_validation forecast data n_test cfg = Inl e)) \<and>
     length out =
       length (filter (\<lambda>cfg. \<exists>v. walk_forward_validation forecast data n_test cfg = Inr v) cfg_list) \<and>
     (\<forall>cfg \<in> set cfg_list. \<forall>v. walk_forward_validation forecast data n_test cfg = Inr v \<longrightarrow>
        (str_cfg cfg, Some v) \<in> set out)"
proof -
  let ?present = "filter (\<lambda>r. snd r \<noteq> None) (candidate_scores forecast data n_test cfg_list)"
  let ?out = "sort_key (\<lambda>tup :: string \<times> real option. the (snd tup)) ?present"
  let ?ok = "\<lambda>cfg. \<exists>v. walk_forward_validation forecast data n_test cfg = Inr v"
  have run: "grid_search forecast finish data cfg_list n_test parallel = Inr ?out"
    by (rule grid_search_ranked)
  have present: "?present = map (\<lambda>cfg. (str_cfg cfg,
            case walk_forward_validation forecast data n_test cfg of
              Inl e \<Rightarrow> None
            | Inr v \<Rightarrow> Some v)) (filter ?ok cfg_list)"
    unfolding candidate_scores_def filter_map
    by (rule arg_cong [where f = "map _"], rule filter_cong) (auto split: sum.splits)
  have len: "length ?out = length (filter ?ok cfg_list)"
    by (simp only: length_sort present length_map)
  have "?out = [] \<longleftrightarrow> filter ?ok cfg_list = []"
    using len length_0_conv [of ?out] length_0_conv [of "filter ?ok cfg_list"] by simp
  also have "\<dots> \<longleftrightarrow> (\<forall>cfg \<in> set cfg_list. \<exists>e. walk_forward_validation forecast data n_test cfg = Inl e)"
    by (simp add: filter_empty_conv not_Inr_iff)
  finally have empty: "?out = [] \<longleftrightarrow>
      (\<forall>cfg \<in> set cfg_list. \<exists>e. walk_forward_validation forecast data n_test cfg = Inl e)" .
  have mem: "\<forall>cfg \<in> set cfg_list. \<forall>v. walk_forward_validation forecast data n_test cfg = Inr v \<longrightarrow>
        (str_cfg cfg, Some v) \<in> set ?out"
  proof (intro ballI allI impI)
    fix cfg v
    assume cfg: "cfg \<in> set cfg_list"
      and v: "walk_forward_validation forecast data n_test cfg = Inr v"
    let ?score = "\<lambda>cfg. (str_cfg cfg,
            case walk_forward_validation forecast data n_test cfg of
              Inl e \<Rightarrow> None
            | Inr v \<Rightarrow> Some v)"
    from v have "(str_cfg cfg, Some v) = ?score cfg"
      by simp
    then have "(str_cfg cfg, Some v) \<in> ?score ` set cfg_list"
      using cfg by (rule image_eqI)
    then have "(str_cfg cfg, Some v) \<in> set (candidate_scores forecast data n_test cfg_list)"
      by (simp only: candidate_scores_def set_map)
    then have "(str_cfg cfg, Some v) \<in> set ?present"
      by simp
    then show "(str_cfg cfg, Some v) \<in> set ?out"
      by (simp only: set_sort)
  qed
  from run empty len mem show ?thesis
    by blast
qed

theorem grid_search_all_fail_witness:
  "(None, False, None, None, False, False)
     \<in> set [(None, False, Some ''mul'', None, False, False), (None, False, None, None, False, False)] \<and>
   walk_forward_validation last_value_forecast [1, 2, 3, 4] 2
     (None, False, None, None, False, False) = Inr 1 \<and>
   grid_search last_value_forecast id [1, 2, 3, 4]
     [(None, False, Some ''mul'', None, False, False), (None, False, None, None, False, False)] 2 True
     = Inr [(str_cfg (None, False, None, None, False, False), Some 1)] \<and>
   (str_cfg (None, False, None, None, False, False), Some 1)
     \<in> set [(str_cfg (None, False, None, None, False, False), Some (1::real))]"
proof -
  let ?bad = "(None, False, Some ''mul'', None, False, False) :: config"
  let ?good = "(None, False, None, None, False, False) :: config"
  have good: "walk_forward_validation last_value_forecast [1, 2, 3, 4] 2 ?good = Inr 1"
    by (simp add: walk_forward_validation_def train_test_split_def slice_to_def slice_from_def
        slice_bound_def last_value_forecast_def measure_rmse_def mean_squared_error_def
        math_sqrt_def)
  have run: "grid_search last_value_forecast id [1, 2, 3, 4] [?bad, ?good] 2 True
      = Inr [(str_cfg ?good, Some 1)]"
    by (simp add: grid_search_def Parallel_def score_model_def walk_forward_validation_def
        train_test_split_def slice_to_def slice_from_def slice_bound_def last_value_forecast_def
        measure_rmse_def mean_squared_error_def math_sqrt_def sort_scores_def
        del: str_cfg.simps)
  from grid_search_all_fail [of last_value_forecast id "[1, 2, 3, 4]" "[?bad, ?good]" 2 True]
  obtain out where out: "grid_search last_value_forecast id [1, 2, 3, 4] [?bad, ?good] 2 True = Inr out"
    and mem: "\<forall>cfg \<in> set [?bad, ?good]. \<forall>v.
        walk_forward_validation last_value_forecast [1, 2, 3, 4] 2 cfg = Inr v \<longrightarrow>
        (str_cfg cfg, Some v) \<in> set out"
    by blast
  from out run have "out = [(str_cfg ?good, Some 1)]"
    by simp
  moreover from mem good have "(str_cfg ?good, Some 1) \<in> set out"
    by simp
  ultimately show ?thesis
    using good run by simp
qed

subsection \<open>The configuration space\<close>

lemma fold_append_map: "fold (\<lambda>x acc. acc @ [k x]) xs acc = acc @ map k xs"
  by (induction xs arbitrary: acc) simp_all

lemma fold_product_step:
  assumes "\<And>x acc. F x acc = acc @ map (h x) zs"
  shows "fold F xs acc = acc @ map (\<lambda>(x, z). h x z) (List.product xs zs)"
  by (induction xs arbitrary: acc) (simp_all add: assms comp_def)

lemma nested_fold_cartesian6:
  "fold (\<lambda>t. fold (\<lambda>d. fold (\<lambda>s. fold (\<lambda>p. fold (\<lambda>b. fold (\<lambda>r models.
      models @ [(t, d, s, p, b, r)]) rs) bs) ps) ss) ds) ts models =
   models @ cartesian6 ts ds ss ps bs rs"
proof -
  have r: "fold (\<lambda>r models. models @ [(t, d, s, p, b, r)]) rs models =
      models @ map (\<lambda>r. (t, d, s, p, b, r)) rs"
    for t d s p b models
    by (rule fold_append_map)
  have b: "fold (\<lambda>b. fold (\<lambda>r models. models @ [(t, d, s, p, b, r)]) rs) bs models =
      models @ map (\<lambda>(b, r). (t, d, s, p, b, r)) (List.product bs rs)"
    for t d s p models
    by (rule fold_product_step) (simp only: r)
  have p: "fold (\<lambda>p. fold (\<lambda>b. fold (\<lambda>r models. models @ [(t, d, s, p, b, r)]) rs) bs)
        ps models =
      models @ map (\<lambda>(p, b, r). (t, d, s, p, b, r)) (List.product ps (List.product bs rs))"
    for t d s models
    by (rule fold_product_step) (simp only: b)
  have s: "fold (\<lambda>s. fold (\<lambda>p. fold (\<lambda>b. fold (\<lambda>r models. models @ [(t, d, s, p, b, r)])
        rs) bs) ps) ss models =
      models @ map (\<lambda>(s, p, b, r). (t, d, s, p, b, r))
        (List.product ss (List.product ps (List.product bs rs)))"
    for t d models
    by (rule fold_product_step) (simp only: p)
  have d: "fold (\<lambda>d. fold (\<lambda>s. fold (\<lambda>p. fold (\<lambda>b. fold (\<lambda>r models.
        models @ [(t, d, s, p, b, r)]) rs) bs) ps) ss) ds models =
      models @ map (\<lambda>(d, s, p, b, r). (t, d, s, p, b, r))
        (List.product ds (List.product ss (List.product ps (List.product bs rs))))"
    for t models
    by (rule fold_product_step) (simp only: s)
  have t: "fold (\<lambda>t. fold (\<lambda>d. fold (\<lambda>s. fold (\<lambda>p. fold (\<lambda>b. fold (\<lambda>r models.
        models @ [(t, d, s, p, b, r)]) rs) bs) ps) ss) ds) ts models =
      models @ map (\<lambda>(t, d, s, p, b, r). (t, d, s, p, b, r))
        (List.product ts (List.product ds (List.product ss (List.product ps
          (List.product bs rs)))))"
    by (rule fold_product_step) (simp only: d)
  have "(\<lambda>(t, d, s, p, b, r). (t, d, s, p, b, r)) = (\<lambda>c :: 'a \<times> 'b \<times> 'c \<times> 'd \<times> 'e \<times> 'f. c)"
    by (simp add: fun_eq_iff)
  then show ?thesis
    unfolding t cartesian6_def by simp
qed

lemma exp_smoothing_configs_product:
  "exp_smoothing_configs seasonal =
     cartesian6 [Some ''add'', Some ''mul'', None] [True, False] [Some ''add'', Some ''mul'', None]
       seasonal [True, False] [True, False]"
  unfolding exp_smoothing_configs_def Let_def nested_fold_cartesian6 by simp

lemma product_nth_pair:
  assumes "i < length xs" and "j < length ys"
  shows "i * length ys + j < length (List.product xs ys) \<and>
         List.product xs ys ! (i * length ys + j) = (xs ! i, ys ! j)"
proof -
  have bound: "i * length ys + j < length xs * length ys"
  proof -
    have "i * length ys + j < i * length ys + length ys"
      using assms(2) by simp
    also have "\<dots> = Suc i * length ys"
      by simp
    also have "\<dots> \<le> length xs * length ys"
      using assms(1) by (intro mult_le_mono1) simp
    finally show ?thesis .
  qed
  have "length ys \<noteq> 0"
    using assms(2) by auto
  then have "(i * length ys + j) div length ys = i" and "(i * length ys + j) mod length ys = j"
    using assms(2) by (simp_all add: div_mult_self3)
  with bound show ?thesis
    by (simp add: product_nth)
qed

lemma cartesian6_nth:
  assumes "ti < length ts" "di < length ds" "si < length ss" "qi < length ps"
    "bi < length bs" "ri < length rs"
  shows "cartesian6 ts ds ss ps bs rs !
      (ti * (length ds * (length ss * (length ps * (length bs * length rs)))) +
       (di * (length ss * (length ps * (length bs * length rs))) +
        (si * (length ps * (length bs * length rs)) +
         (qi * (length bs * length rs) + (bi * length rs + ri))))) =
    (ts ! ti, ds ! di, ss ! si, ps ! qi, bs ! bi, rs ! ri)"
proof -
  let ?l5 = "List.product bs rs"
  let ?l4 = "List.product ps ?l5"
  let ?l3 = "List.product ss ?l4"
  let ?l2 = "List.product ds ?l3"
  let ?i5 = "bi * length rs + ri"
  let ?i4 = "qi * length ?l5 + ?i5"
  let ?i3 = "si * length ?l4 + ?i4"
  let ?i2 = "di * length ?l3 + ?i3"
  let ?i1 = "ti * length ?l2 + ?i2"
  from product_nth_pair [OF assms(5,6)]
  have 5: "?i5 < length ?l5" "?l5 ! ?i5 = (bs ! bi, rs ! ri)" by blast+
  from product_nth_pair [OF assms(4) 5(1)]
  have 4: "?i4 < length ?l4" "?l4 ! ?i4 = (ps ! qi, ?l5 ! ?i5)" by blast+
  from product_nth_pair [OF assms(3) 4(1)]
  have 3: "?i3 < length ?l3" "?l3 ! ?i3 = (ss ! si, ?l4 ! ?i4)" by blast+
  from product_nth_pair [OF assms(2) 3(1)]
  have 2: "?i2 < length ?l2" "?l2 ! ?i2 = (ds ! di, ?l3 ! ?i3)" by blast+
  from product_nth_pair [OF assms(1) 2(1)]
  have 1: "List.product ts ?l2 ! ?i1 = (ts ! ti, ?l2 ! ?i2)" by blast
  have "cartesian6 ts ds ss ps bs rs ! ?i1 = (ts ! ti, ds ! di, ss ! si, ps ! qi, bs ! bi, rs ! ri)"
    unfolding cartesian6_def 1 2(2) 3(2) 4(2) 5(2) ..
  then show ?thesis
    by (simp only: length_product)
qed

text \<open>
  Claim C3. \<open>exp_smoothing_configs\<close> returns the Cartesian product of the six domains
  in nested order, trend varying slowest and bias removal fastest: it has
  \<open>3 * 2 * 3 * length seasonal * 2 * 2\<close> entries, 72 for the default \<^verbatim>\<open>[None]\<close>,
  whatever the seasonal list holds (nothing is deduplicated or pruned), and the entry at
  the index built from the six positions is the tuple of the values at these positions.
\<close>

theorem exp_smoothing_configs_cartesian:
  "exp_smoothing_configs seasonal =
     cartesian6 [Some ''add'', Some ''mul'', None] [True, False] [Some ''add'', Some ''mul'', None]
       seasonal [True, False] [True, False] \<and>
   length (exp_smoothing_configs seasonal) = 3 * 2 * 3 * length seasonal * 2 * 2 \<and>
   length exp_smoothing_configs_default = 72 \<and>
   (\<forall>ti<3. \<forall>di<2. \<forall>si<3. \<forall>qi<length seasonal. \<forall>bi<2. \<forall>ri<2.
      exp_smoothing_configs seasonal !
        (((((ti * 2 + di) * 3 + si) * length seasonal + qi) * 2 + bi) * 2 + ri) =
      ([Some ''add'', Some ''mul'', None] ! ti, [True, False] ! di,
       [Some ''add'', Some ''mul'', None] ! si, seasonal ! qi,
       [True, False] ! bi, [True, False] ! ri))"
proof -
  let ?ts = "[Some ''add'', Some ''mul'', None] :: string option list"
  let ?bools = "[True, False]"
  let ?P = "length seasonal"
  have eq: "exp_smoothing_configs seasonal = cartesian6 ?ts ?bools ?ts seasonal ?bools ?bools"
    by (rule exp_smoothing_configs_product)
  have len: "length (exp_smoothing_configs seasonal) = 3 * 2 * 3 * ?P * 2 * 2"
    by (simp add: eq cartesian6_def)
  have dflt: "length exp_smoothing_configs_default = 72"
    by (simp add: exp_smoothing_configs_default_def exp_smoothing_configs_product cartesian6_def)
  have nth: "exp_smoothing_configs seasonal !
        (((((ti * 2 + di) * 3 + si) * ?P + qi) * 2 + bi) * 2 + ri) =
      (?ts ! ti, ?bools ! di, ?ts ! si, seasonal ! qi, ?bools ! bi, ?bools ! ri)"
    if "ti < 3" "di < 2" "si < 3" "qi < ?P" "bi < 2" "ri < 2" for ti di si qi bi ri
  proof -
    have idx: "((((ti * 2 + di) * 3 + si) * ?P + qi) * 2 + bi) * 2 + ri =
        ti * (length ?bools * (length ?ts * (?P * (length ?bools * length ?bools)))) +
         (di * (length ?ts * (?P * (length ?bools * length ?bools))) +
          (si * (?P * (length ?bools * length ?bools)) +
           (qi * (length ?bools * length ?bools) + (bi * length ?bools + ri))))"
      by (simp add: algebra_simps)
    have "ti < length ?ts" "di < length ?bools" "si < length ?ts" "bi < length ?bools"
        "ri < length ?bools"
      using that by simp_all
    from cartesian6_nth [OF this(1,2,3) that(4) this(4,5)] show ?thesis
      unfolding eq idx .
  qed
  from eq len dflt nth show ?thesis
    by blast
qed

theorem exp_smoothing_configs_cartesian_witness:
  "(1::nat) < 3 \<and> (0::nat) < 2 \<and> (2::nat) < 3 \<and> (1::nat) < length [None, Some (12::int)] \<and>
   (1::nat) < 2 \<and>
   length (exp_smoothing_configs [None, Some 12]) = 144 \<and>
   exp_smoothing_configs [None, Some 12] ! 69 = (Some ''mul'', True, None, Some 12, True, False)"
proof -
  note space = exp_smoothing_configs_cartesian [of "[None, Some 12]"]
  from space have "length (exp_smoothing_configs [None, Some 12]) =
      3 * 2 * 3 * length [None, Some (12::int)] * 2 * 2"
    by blast
  then have len: "length (exp_smoothing_configs [None, Some 12]) = 144"
    by simp
  from space have "\<forall>ti<3. \<forall>di<2. \<forall>si<3. \<forall>qi<length [None, Some (12::int)]. \<forall>bi<2. \<forall>ri<2.
      exp_smoothing_configs [None, Some 12] !
        (((((ti * 2 + di) * 3 + si) * length [None, Some (12::int)] + qi) * 2 + bi) * 2 + ri) =
      ([Some ''add'', Some ''mul'', None] ! ti, [True, False] ! di,
       [Some ''add'', Some ''mul'', None] ! si, [None, Some 12] ! qi,
       [True, False] ! bi, [True, False] ! ri)"
    by blast
  from this [rule_format, of 1 0 2 1 0 1]
  have "exp_smoothing_configs [None, Some 12] ! 69 = (Some ''mul'', True, None, Some 12, True, False)"
    by simp
  with len show ?thesis
    by simp
qed

subsection \<open>What a call leaves unchanged\<close>

lemma new_simps:
  "fst (new v \<sigma>) = fresh \<sigma>"
  "fresh (snd (new v \<sigma>)) = Suc (fresh \<sigma>)"
  "objects (snd (new v \<sigma>)) r = (if r = fresh \<sigma> then Some v else objects \<sigma> r)"
  by (simp_all add: new_def)

lemma list_append_simps:
  "fresh (list_append r x \<sigma>) = fresh \<sigma>"
  "objects (list_append r x \<sigma>) r' =
     (if r' = r then Some (Floats (floats \<sigma> r @ [x])) else objects \<sigma> r')"
  by (simp_all add: list_append_def)

lemma floats_list_append:
  "floats (list_append r x \<sigma>) r' = (if r' = r then floats \<sigma> r @ [x] else floats \<sigma> r')"
  by (simp add: floats_def list_append_simps)

lemma wfv_loop_st_frame:
  "fresh (snd (wfv_loop_st forecast cfg test predictions history is \<sigma>)) = fresh \<sigma> \<and>
   (\<forall>r. r \<noteq> predictions \<longrightarrow> r \<noteq> history \<longrightarrow>
      objects (snd (wfv_loop_st forecast cfg test predictions history is \<sigma>)) r = objects \<sigma> r)"
proof (induction "is" arbitrary: \<sigma>)
  case Nil
  then show ?case by simp
next
  case (Cons i "is")
  show ?case
  proof (cases "forecast (floats \<sigma> history) cfg")
    case (Inl e)
    then show ?thesis by simp
  next
    case (Inr yhat)
    let ?\<sigma>1 = "list_append predictions yhat \<sigma>"
    let ?\<sigma>2 = "list_append history (floats ?\<sigma>1 test ! i) ?\<sigma>1"
    show ?thesis
    proof (cases "i < length (floats ?\<sigma>1 test)")
      case True
      with Inr have "wfv_loop_st forecast cfg test predictions history (i # is) \<sigma> =
          wfv_loop_st forecast cfg test predictions history is ?\<sigma>2"
        by (simp add: Let_def)
      with Cons.IH [of ?\<sigma>2] show ?thesis
        by (simp add: list_append_simps)
    next
      case False
      with Inr show ?thesis
        by (simp add: Let_def list_append_simps)
    qed
  qed
qed

lemma wfv_loop_st_run:
  assumes "predictions \<noteq> history" "test \<noteq> predictions" "test \<noteq> history"
  shows "fst (wfv_loop_st forecast cfg test predictions history is \<sigma>) =
      (case wfv_loop forecast cfg (floats \<sigma> test) is (floats \<sigma> predictions, floats \<sigma> history) of
         Inl e \<Rightarrow> Some e | Inr st \<Rightarrow> None) \<and>
    (\<forall>ps hs. wfv_loop forecast cfg (floats \<sigma> test) is (floats \<sigma> predictions, floats \<sigma> history)
        = Inr (ps, hs) \<longrightarrow>
      floats (snd (wfv_loop_st forecast cfg test predictions history is \<sigma>)) predictions = ps \<and>
      floats (snd (wfv_loop_st forecast cfg test predictions history is \<sigma>)) history = hs)"
proof (induction "is" arbitrary: \<sigma>)
  case Nil
  then show ?case by simp
next
  case (Cons i "is")
  show ?case
  proof (cases "forecast (floats \<sigma> history) cfg")
    case (Inl e)
    then show ?thesis by simp
  next
    case (Inr yhat)
    let ?\<sigma>1 = "list_append predictions yhat \<sigma>"
    let ?\<sigma>2 = "list_append history (floats ?\<sigma>1 test ! i) ?\<sigma>1"
    have t1: "floats ?\<sigma>1 test = floats \<sigma> test"
      using assms by (simp add: floats_list_append)
    show ?thesis
    proof (cases "i < length (floats \<sigma> test)")
      case True
      with Inr t1 have step: "wfv_loop_st forecast cfg test predictions history (i # is) \<sigma> =
          wfv_loop_st forecast cfg test predictions history is ?\<sigma>2"
        by (simp add: Let_def)
      have st2: "floats ?\<sigma>2 test = floats \<sigma> test"
        "floats ?\<sigma>2 predictions = floats \<sigma> predictions @ [yhat]"
        "floats ?\<sigma>2 history = floats \<sigma> history @ [floats \<sigma> test ! i]"
        using assms by (simp_all add: floats_list_append)
      have pure: "wfv_loop forecast cfg (floats \<sigma> test) (i # is)
            (floats \<sigma> predictions, floats \<sigma> history) =
          wfv_loop forecast cfg (floats ?\<sigma>2 test) is
            (floats ?\<sigma>2 predictions, floats ?\<sigma>2 history)"
        using Inr True by (simp add: st2)
      from Cons.IH [of ?\<sigma>2] show ?thesis
        unfolding step pure .
    next
      case False
      with Inr t1 show ?thesis
        by (simp add: Let_def)
    qed
  qed
qed

lemma wfv_entry_simps:
  "fresh (wfv_entry \<sigma> xs n_test) = Suc (Suc (Suc (Suc (fresh \<sigma>))))"
  "r < fresh \<sigma> \<Longrightarrow> objects (wfv_entry \<sigma> xs n_test) r = objects \<sigma> r"
  "floats (wfv_entry \<sigma> xs n_test) (fresh \<sigma>) = []"
  "floats (wfv_entry \<sigma> xs n_test) (Suc (Suc (fresh \<sigma>))) = slice_from xs (- n_test)"
  "floats (wfv_entry \<sigma> xs n_test) (Suc (Suc (Suc (fresh \<sigma>)))) = slice_to xs (- n_test)"
  by (simp_all add: wfv_entry_def floats_def)

lemma walk_forward_validation_st_unfold:
  assumes data: "objects \<sigma> data = Some (Floats xs)" and alloc: "data < fresh \<sigma>"
  shows "walk_forward_validation_st forecast data n_test cfg \<sigma> =
     (let L = wfv_loop_st forecast cfg (Suc (Suc (fresh \<sigma>))) (fresh \<sigma>) (Suc (Suc (Suc (fresh \<sigma>))))
                [0..<length (slice_from xs (- n_test))] (wfv_entry \<sigma> xs n_test)
      in (case fst L of
            Some e \<Rightarrow> Inl e
          | None \<Rightarrow> measure_rmse (floats (snd L) (Suc (Suc (fresh \<sigma>)))) (floats (snd L) (fresh \<sigma>)),
          snd L))"
proof -
  let ?p = "fresh \<sigma>"
  define \<sigma>1 where "\<sigma>1 = \<sigma>\<lparr>objects := (objects \<sigma>)(?p \<mapsto> Floats []), fresh := Suc ?p\<rparr>"
  define \<sigma>2 where "\<sigma>2 = \<sigma>1\<lparr>objects := (objects \<sigma>1)(Suc ?p \<mapsto> Floats (slice_to xs (- n_test))),
      fresh := Suc (Suc ?p)\<rparr>"
  define \<sigma>3 where "\<sigma>3 = \<sigma>2\<lparr>objects := (objects \<sigma>2)(Suc (Suc ?p) \<mapsto> Floats (slice_from xs (- n_test))),
      fresh := Suc (Suc (Suc ?p))\<rparr>"
  define \<sigma>4 where "\<sigma>4 = \<sigma>3\<lparr>objects := (objects \<sigma>3)(Suc (Suc (Suc ?p)) \<mapsto> Floats (slice_to xs (- n_test))),
      fresh := Suc (Suc (Suc (Suc ?p)))\<rparr>"
  have n1: "new (Floats []) \<sigma> = (?p, \<sigma>1)"
    by (simp add: new_def \<sigma>1_def)
  have d1: "floats \<sigma>1 data = xs"
    using data alloc by (simp add: floats_def \<sigma>1_def)
  have n2: "new (Floats (slice_to xs (- n_test))) \<sigma>1 = (Suc ?p, \<sigma>2)"
    by (simp add: new_def \<sigma>1_def \<sigma>2_def)
  have d2: "floats \<sigma>2 data = xs"
    using data alloc by (simp add: floats_def \<sigma>1_def \<sigma>2_def)
  have n3: "new (Floats (slice_from xs (- n_test))) \<sigma>2 = (Suc (Suc ?p), \<sigma>3)"
    by (simp add: new_def \<sigma>1_def \<sigma>2_def \<sigma>3_def)
  have d3: "floats \<sigma>3 (Suc ?p) = slice_to xs (- n_test)"
    by (simp add: floats_def \<sigma>2_def \<sigma>3_def)
  have n4: "new (Floats (slice_to xs (- n_test))) \<sigma>3 = (Suc (Suc (Suc ?p)), \<sigma>4)"
    by (simp add: new_def \<sigma>1_def \<sigma>2_def \<sigma>3_def \<sigma>4_def)
  have d4: "floats \<sigma>4 (Suc (Suc ?p)) = slice_from xs (- n_test)"
    by (simp add: floats_def \<sigma>3_def \<sigma>4_def)
  have entry: "\<sigma>4 = wfv_entry \<sigma> xs n_test"
    by (simp add: wfv_entry_def \<sigma>1_def \<sigma>2_def \<sigma>3_def \<sigma>4_def)
  have "walk_forward_validation_st forecast data n_test cfg \<sigma> =
     (let L = wfv_loop_st forecast cfg (Suc (Suc ?p)) ?p (Suc (Suc (Suc ?p)))
                [0..<length (slice_from xs (- n_test))] \<sigma>4
      in (case fst L of
            Some e \<Rightarrow> Inl e
          | None \<Rightarrow> measure_rmse (floats (snd L) (Suc (Suc ?p))) (floats (snd L) ?p),
          snd L))"
    unfolding walk_forward_validation_st_def
    by (simp add: data n1 d1 n2 d2 n3 d3 n4 d4 Let_def split_def split: option.splits)
  then show ?thesis
    by (simp only: entry)
qed

lemma walk_forward_validation_st_frame:
  assumes alloc: "data < fresh \<sigma>"
  shows "fresh \<sigma> \<le> fresh (snd (walk_forward_validation_st forecast data n_test cfg \<sigma>)) \<and>
    (\<forall>r<fresh \<sigma>. objects (snd (walk_forward_validation_st forecast data n_test cfg \<sigma>)) r
        = objects \<sigma> r)"
proof (cases "\<exists>xs. objects \<sigma> data = Some (Floats xs)")
  case True
  then obtain xs where data: "objects \<sigma> data = Some (Floats xs)" ..
  let ?L = "wfv_loop_st forecast cfg (Suc (Suc (fresh \<sigma>))) (fresh \<sigma>) (Suc (Suc (Suc (fresh \<sigma>))))
      [0..<length (slice_from xs (- n_test))] (wfv_entry \<sigma> xs n_test)"
  have snd: "snd (walk_forward_validation_st forecast data n_test cfg \<sigma>) = snd ?L"
    by (simp add: walk_forward_validation_st_unfold [OF data alloc] Let_def)
  from wfv_loop_st_frame [of forecast cfg "Suc (Suc (fresh \<sigma>))" "fresh \<sigma>"
      "Suc (Suc (Suc (fresh \<sigma>)))" "[0..<length (slice_from xs (- n_test))]" "wfv_entry \<sigma> xs n_test"]
  have fr: "fresh (snd ?L) = Suc (Suc (Suc (Suc (fresh \<sigma>))))"
    and ob: "\<And>r. r < fresh \<sigma> \<Longrightarrow> objects (snd ?L) r = objects \<sigma> r"
    by (simp_all add: wfv_entry_simps)
  from fr ob show ?thesis
    unfolding snd by simp
next
  case False
  then have "walk_forward_validation_st forecast data n_test cfg \<sigma> = (Inl TypeError, \<sigma>)"
    by (auto simp: walk_forward_validation_st_def split: option.splits obj.splits)
  then show ?thesis
    by simp
qed

lemma walk_forward_validation_st_result:
  assumes data: "objects \<sigma> data = Some (Floats xs)" and alloc: "data < fresh \<sigma>"
  shows "fst (walk_forward_validation_st forecast data n_test cfg \<sigma>) =
      walk_forward_validation forecast xs n_test cfg"
proof -
  let ?p = "fresh \<sigma>"
  let ?test = "slice_from xs (- n_test)" and ?train = "slice_to xs (- n_test)"
  let ?\<sigma>4 = "wfv_entry \<sigma> xs n_test"
  let ?L = "wfv_loop_st forecast cfg (Suc (Suc ?p)) ?p (Suc (Suc (Suc ?p))) [0..<length ?test] ?\<sigma>4"
  let ?pure = "wfv_loop forecast cfg ?test [0..<length ?test] ([], ?train)"
  have run: "fst ?L = (case ?pure of Inl e \<Rightarrow> Some e | Inr st \<Rightarrow> None)"
    and fin: "\<And>ps hs. ?pure = Inr (ps, hs) \<Longrightarrow> floats (snd ?L) ?p = ps"
    using wfv_loop_st_run [of ?p "Suc (Suc (Suc ?p))" "Suc (Suc ?p)" forecast cfg
        "[0..<length ?test]" ?\<sigma>4]
    by (simp_all add: wfv_entry_simps)
  have test: "floats (snd ?L) (Suc (Suc ?p)) = ?test"
    using wfv_loop_st_frame [of forecast cfg "Suc (Suc ?p)" ?p "Suc (Suc (Suc ?p))"
        "[0..<length ?test]" ?\<sigma>4] wfv_entry_simps(4) [of \<sigma> xs n_test]
    by (simp add: floats_def)
  have st: "fst (walk_forward_validation_st forecast data n_test cfg \<sigma>) =
      (case fst ?L of
         Some e \<Rightarrow> Inl e
       | None \<Rightarrow> measure_rmse (floats (snd ?L) (Suc (Suc ?p))) (floats (snd ?L) ?p))"
    by (simp add: walk_forward_validation_st_unfold [OF data alloc] Let_def)
  have pure: "walk_forward_validation forecast xs n_test cfg =
      (case ?pure of Inl e \<Rightarrow> Inl e | Inr (ps, hs) \<Rightarrow> measure_rmse ?test ps)"
    by (simp add: walk_forward_validation_def train_test_split_def)
  show ?thesis
  proof (cases ?pure)
    case (Inl e)
    then show ?thesis
      by (simp add: st pure run)
  next
    case (Inr st')
    obtain ps hs where "st' = (ps, hs)" by (cases st')
    with Inr have p: "?pure = Inr (ps, hs)" by simp
    from fin [OF p] show ?thesis
      by (simp add: st pure run p test)
  qed
qed

lemma score_model_st_frame:
  assumes "data < fresh \<sigma>"
  shows "fresh \<sigma> \<le> fresh (snd (score_model_st forecast data n_test cfg debug \<sigma>)) \<and>
    (\<forall>r<fresh \<sigma>. objects (snd (score_model_st forecast data n_test cfg debug \<sigma>)) r = objects \<sigma> r)"
proof -
  obtain w \<sigma>1 where "walk_forward_validation_st forecast data n_test cfg \<sigma> = (w, \<sigma>1)"
    by (cases "walk_forward_validation_st forecast data n_test cfg \<sigma>")
  then have "snd (score_model_st forecast data n_test cfg debug \<sigma>) =
      snd (walk_forward_validation_st forecast data n_test cfg \<sigma>)"
    by (cases w; cases debug) (simp_all add: score_model_st_def)
  with walk_forward_validation_st_frame [OF assms] show ?thesis
    by simp
qed

lemma score_model_st_result:
  assumes "objects \<sigma> data = Some (Floats xs)" and "data < fresh \<sigma>"
  shows "fst (score_model_st forecast data n_test cfg debug \<sigma>) =
      score_model forecast xs n_test cfg debug"
proof -
  obtain w \<sigma>1 where W: "walk_forward_validation_st forecast data n_test cfg \<sigma> = (w, \<sigma>1)"
    by (cases "walk_forward_validation_st forecast data n_test cfg \<sigma>")
  with walk_forward_validation_st_result [OF assms, of forecast n_test cfg]
  have "walk_forward_validation forecast xs n_test cfg = w"
    by simp
  with W show ?thesis
    by (cases w; cases debug) (simp_all add: score_model_st_def score_model_def)
qed

lemma score_all_st_frame_result:
  assumes "objects \<sigma> data = Some (Floats xs)" and "data < fresh \<sigma>"
  shows "fresh \<sigma> \<le> fresh (snd (score_all_st forecast data n_test cfgs \<sigma>)) \<and>
    (\<forall>r<fresh \<sigma>. objects (snd (score_all_st forecast data n_test cfgs \<sigma>)) r = objects \<sigma> r) \<and>
    fst (score_all_st forecast data n_test cfgs \<sigma>) =
      collect (map (\<lambda>cfg. score_model forecast xs n_test cfg False) cfgs)"
  using assms
proof (induction cfgs arbitrary: \<sigma>)
  case Nil
  then show ?case by simp
next
  case (Cons cfg cfgs)
  obtain s1 \<sigma>1 where S: "score_model_st forecast data n_test cfg False \<sigma> = (s1, \<sigma>1)"
    by (cases "score_model_st forecast data n_test cfg False \<sigma>")
  from score_model_st_frame [OF Cons.prems(2), of forecast n_test cfg False] S
  have fr1: "fresh \<sigma> \<le> fresh \<sigma>1" and ob1: "\<forall>r<fresh \<sigma>. objects \<sigma>1 r = objects \<sigma> r"
    by simp_all
  from ob1 Cons.prems have data1: "objects \<sigma>1 data = Some (Floats xs)"
    by simp
  from fr1 Cons.prems(2) have alloc1: "data < fresh \<sigma>1"
    by simp
  obtain rs1 \<sigma>2 where R: "score_all_st forecast data n_test cfgs \<sigma>1 = (rs1, \<sigma>2)"
    by (cases "score_all_st forecast data n_test cfgs \<sigma>1")
  from Cons.IH [OF data1 alloc1] R
  have fr2: "fresh \<sigma>1 \<le> fresh \<sigma>2" and ob2: "\<forall>r<fresh \<sigma>1. objects \<sigma>2 r = objects \<sigma>1 r"
    and res2: "rs1 = collect (map (\<lambda>cfg. score_model forecast xs n_test cfg False) cfgs)"
    by simp_all
  from score_model_st_result [OF Cons.prems, of forecast n_test cfg False] S
  have res1: "s1 = score_model forecast xs n_test cfg False"
    by simp
  show ?case
  proof (cases s1)
    case (Inl e)
    with S have "score_all_st forecast data n_test (cfg # cfgs) \<sigma> = (Inl e, \<sigma>1)"
      by simp
    with fr1 ob1 Inl res1 show ?thesis
      by simp
  next
    case (Inr r)
    with S R have step: "score_all_st forecast data n_test (cfg # cfgs) \<sigma> =
        (case rs1 of Inl e \<Rightarrow> Inl e | Inr rs \<Rightarrow> Inr (r # rs), \<sigma>2)"
      by (cases rs1) simp_all
    from fr1 fr2 have "fresh \<sigma> \<le> fresh \<sigma>2"
      by simp
    moreover from ob1 ob2 fr1 have "\<forall>r<fresh \<sigma>. objects \<sigma>2 r = objects \<sigma> r"
      by simp
    moreover from res1 Inr have sm: "score_model forecast xs n_test cfg False = Inr r"
      by simp
    then have "(case rs1 of Inl e \<Rightarrow> Inl e | Inr rs \<Rightarrow> Inr (r # rs)) =
        collect (map (\<lambda>cfg. score_model forecast xs n_test cfg False) (cfg # cfgs))"
      by (simp add: res2)
    ultimately show ?thesis
      unfolding step by simp
  qed
qed

lemma collect_Parallel_st:
  assumes "objects \<sigma> data = Some (Floats xs)" and "data < fresh \<sigma>"
  shows "collect (Parallel finish
      (map (\<lambda>cfg. \<lambda>_::unit. fst (score_model_st forecast data n_test cfg False \<sigma>)) cfgs)) =
    collect (map (\<lambda>cfg. score_model forecast xs n_test cfg False) cfgs)"
  by (simp add: Parallel_in_task_order comp_def score_model_st_result [OF assms])

lemma grid_search_st_frame_result:
  assumes data: "objects \<sigma> data = Some (Floats xs)" and alloc: "data < fresh \<sigma>"
    and cfgs: "objects \<sigma> cfg_list = Some (Configs cfgs)"
  shows "\<exists>ranked \<sigma>' out.
    grid_search_st forecast finish data cfg_list n_test parallel \<sigma> = (Inr ranked, \<sigma>') \<and>
    (\<forall>r<fresh \<sigma>. objects \<sigma>' r = objects \<sigma> r) \<and>
    fresh \<sigma> \<le> ranked \<and>
    grid_search forecast finish xs cfgs n_test parallel = Inr out \<and>
    objects \<sigma>' ranked = Some (Scores out)"
proof -
  let ?scores = "candidate_scores forecast xs n_test cfgs"
  let ?present = "filter (\<lambda>r. snd r \<noteq> None) ?scores"
  let ?out = "sort_key (\<lambda>tup :: string \<times> real option. the (snd tup)) ?present"
  obtain scored \<sigma>1 where run: "(if parallel
        then (collect (Parallel finish
                (map (\<lambda>cfg. \<lambda>_::unit.
                   fst (score_model_st forecast data n_test cfg False \<sigma>)) cfgs)), \<sigma>)
        else score_all_st forecast data n_test cfgs \<sigma>) = (scored, \<sigma>1)"
    by (cases "if parallel
        then (collect (Parallel finish
                (map (\<lambda>cfg. \<lambda>_::unit.
                   fst (score_model_st forecast data n_test cfg False \<sigma>)) cfgs)), \<sigma>)
        else score_all_st forecast data n_test cfgs \<sigma>")
  have pure: "collect (map (\<lambda>cfg. score_model forecast xs n_test cfg False) cfgs) = Inr ?scores"
    using collect_map_Inr [of "\<lambda>cfg. (str_cfg cfg,
            case walk_forward_validation forecast xs n_test cfg of
              Inl e \<Rightarrow> None
            | Inr v \<Rightarrow> Some v)" cfgs]
    by (simp add: score_model_no_debug candidate_scores_def)
  have scored: "scored = Inr ?scores"
    and fr1: "fresh \<sigma> \<le> fresh \<sigma>1"
    and ob1: "\<forall>r<fresh \<sigma>. objects \<sigma>1 r = objects \<sigma> r"
  proof -
    show "scored = Inr ?scores"
    proof (cases parallel)
      case True
      with run collect_Parallel_st [OF data alloc, of finish forecast n_test cfgs] pure
      show ?thesis by simp
    next
      case False
      with run score_all_st_frame_result [OF data alloc, of forecast n_test cfgs] pure
      show ?thesis by simp
    qed
    show "fresh \<sigma> \<le> fresh \<sigma>1" and "\<forall>r<fresh \<sigma>. objects \<sigma>1 r = objects \<sigma> r"
      using run score_all_st_frame_result [OF data alloc, of forecast n_test cfgs]
      by (cases parallel; simp)+
  qed
  let ?p = "fresh \<sigma>1"
  define \<sigma>2 where "\<sigma>2 = \<sigma>1\<lparr>objects := (objects \<sigma>1)(?p \<mapsto> Scores ?scores), fresh := Suc ?p\<rparr>"
  define \<sigma>3 where "\<sigma>3 = \<sigma>2\<lparr>objects := (objects \<sigma>2)(Suc ?p \<mapsto> Scores ?present),
      fresh := Suc (Suc ?p)\<rparr>"
  define \<sigma>4 where "\<sigma>4 = \<sigma>3\<lparr>objects := (objects \<sigma>3)(Suc ?p \<mapsto> Scores ?out)\<rparr>"
  have n1: "new (Scores ?scores) \<sigma>1 = (?p, \<sigma>2)"
    by (simp add: new_def \<sigma>2_def)
  have s2: "scores_of \<sigma>2 ?p = ?scores"
    by (simp add: scores_of_def \<sigma>2_def)
  have n2: "new (Scores ?present) \<sigma>2 = (Suc ?p, \<sigma>3)"
    by (simp add: new_def \<sigma>2_def \<sigma>3_def)
  have s3: "scores_of \<sigma>3 (Suc ?p) = ?present"
    by (simp add: scores_of_def \<sigma>3_def)
  have srt: "sort_scores ?present = Inr ?out"
    by (rule sort_scores_present) simp
  have "grid_search_st forecast finish data cfg_list n_test parallel \<sigma> =
      (Inr (Suc ?p), \<sigma>3\<lparr>objects := (objects \<sigma>3)(Suc ?p \<mapsto> Scores ?out)\<rparr>)"
    unfolding grid_search_st_def
    by (simp add: cfgs run scored n1 s2 n2 s3 srt del: sort_key_simps not_None_eq)
  then have res: "grid_search_st forecast finish data cfg_list n_test parallel \<sigma> = (Inr (Suc ?p), \<sigma>4)"
    by (simp only: \<sigma>4_def)
  have frame: "\<forall>r<fresh \<sigma>. objects \<sigma>4 r = objects \<sigma> r"
    using ob1 fr1 by (simp add: \<sigma>2_def \<sigma>3_def \<sigma>4_def)
  have ref: "fresh \<sigma> \<le> Suc ?p"
    using fr1 by simp
  have pure_out: "grid_search forecast finish xs cfgs n_test parallel = Inr ?out"
    by (rule grid_search_ranked)
  have obj: "objects \<sigma>4 (Suc ?p) = Some (Scores ?out)"
    by (simp add: \<sigma>4_def)
  from res frame ref pure_out obj show ?thesis
    by blast
qed

text \<open>
  Claim C9. Let the series and the candidate list be objects of the store that exist
  before the call. After \<open>walk_forward_validation\<close>, after \<open>score_model\<close> and after
  \<open>grid_search\<close>, sequential or parallel, every object that existed before the call is
  unchanged, in particular the series and the candidate list. The history is a new
  object holding the values of the train partition at the entry of the loop, and the
  appends go to it and to the new list of predictions only. The functions on the store
  return what the functions on values return.
\<close>

theorem inputs_not_mutated:
  assumes data: "objects \<sigma> data = Some (Floats xs)" and alloc: "data < fresh \<sigma>"
    and cfgs: "objects \<sigma> cfg_list = Some (Configs cfgs)" and alloc_cfgs: "cfg_list < fresh \<sigma>"
  shows
    "(\<forall>r<fresh \<sigma>. objects (snd (walk_forward_validation_st forecast data n_test cfg \<sigma>)) r
        = objects \<sigma> r) \<and>
     objects (snd (walk_forward_validation_st forecast data n_test cfg \<sigma>)) data = Some (Floats xs) \<and>
     objects (snd (walk_forward_validation_st forecast data n_test cfg \<sigma>)) cfg_list
        = Some (Configs cfgs) \<and>
     fst (walk_forward_validation_st forecast data n_test cfg \<sigma>)
        = walk_forward_validation forecast xs n_test cfg \<and>
     (\<forall>r<fresh \<sigma>. objects (snd (score_model_st forecast data n_test cfg debug \<sigma>)) r
        = objects \<sigma> r) \<and>
     objects (snd (score_model_st forecast data n_test cfg debug \<sigma>)) data = Some (Floats xs) \<and>
     objects (snd (score_model_st forecast data n_test cfg debug \<sigma>)) cfg_list
        = Some (Configs cfgs) \<and>
     fst (score_model_st forecast data n_test cfg debug \<sigma>)
        = score_model forecast xs n_test cfg debug \<and>
     (\<exists>ranked \<sigma>' out.
        grid_search_st forecast finish data cfg_list n_test parallel \<sigma> = (Inr ranked, \<sigma>') \<and>
        (\<forall>r<fresh \<sigma>. objects \<sigma>' r = objects \<sigma> r) \<and>
        objects \<sigma>' data = Some (Floats xs) \<and>
        objects \<sigma>' cfg_list = Some (Configs cfgs) \<and>
        fresh \<sigma> \<le> ranked \<and>
        grid_search forecast finish xs cfgs n_test parallel = Inr out \<and>
        objects \<sigma>' ranked = Some (Scores out)) \<and>
     fresh \<sigma> \<le> Suc (Suc (Suc (fresh \<sigma>))) \<and>
     objects (wfv_entry \<sigma> xs n_test) (Suc (Suc (Suc (fresh \<sigma>))))
        = Some (Floats (fst (train_test_split xs n_test))) \<and>
     objects (wfv_entry \<sigma> xs n_test) data = Some (Floats xs) \<and>
     walk_forward_validation_st forecast data n_test cfg \<sigma> =
       (let L = wfv_loop_st forecast cfg (Suc (Suc (fresh \<sigma>))) (fresh \<sigma>) (Suc (Suc (Suc (fresh \<sigma>))))
                  [0..<length (slice_from xs (- n_test))] (wfv_entry \<sigma> xs n_test)
        in (case fst L of
              Some e \<Rightarrow> Inl e
            | None \<Rightarrow> measure_rmse (floats (snd L) (Suc (Suc (fresh \<sigma>)))) (floats (snd L) (fresh \<sigma>)),
            snd L))"
proof -
  let ?W = "walk_forward_validation_st forecast data n_test cfg \<sigma>"
  let ?S = "score_model_st forecast data n_test cfg debug \<sigma>"
  from walk_forward_validation_st_frame [OF alloc, of forecast n_test cfg]
  have w: "\<forall>r<fresh \<sigma>. objects (snd ?W) r = objects \<sigma> r"
    by simp
  from w data alloc cfgs alloc_cfgs
  have wd: "objects (snd ?W) data = Some (Floats xs)"
    and wc: "objects (snd ?W) cfg_list = Some (Configs cfgs)"
    by simp_all
  have wr: "fst ?W = walk_forward_validation forecast xs n_test cfg"
    by (rule walk_forward_validation_st_result [OF data alloc])
  from score_model_st_frame [OF alloc, of forecast n_test cfg debug]
  have s: "\<forall>r<fresh \<sigma>. objects (snd ?S) r = objects \<sigma> r"
    by simp
  from s data alloc cfgs alloc_cfgs
  have sd: "objects (snd ?S) data = Some (Floats xs)"
    and sc: "objects (snd ?S) cfg_list = Some (Configs cfgs)"
    by simp_all
  have sr: "fst ?S = score_model forecast xs n_test cfg debug"
    by (rule score_model_st_result [OF data alloc])
  from grid_search_st_frame_result [OF data alloc cfgs, of forecast finish n_test parallel]
  obtain ranked \<sigma>' out where
    g: "grid_search_st forecast finish data cfg_list n_test parallel \<sigma> = (Inr ranked, \<sigma>')"
      "\<forall>r<fresh \<sigma>. objects \<sigma>' r = objects \<sigma> r" "fresh \<sigma> \<le> ranked"
      "grid_search forecast finish xs cfgs n_test parallel = Inr out"
      "objects \<sigma>' ranked = Some (Scores out)"
    by blast
  from g(2) data alloc cfgs alloc_cfgs
  have gd: "objects \<sigma>' data = Some (Floats xs)" and gc: "objects \<sigma>' cfg_list = Some (Configs cfgs)"
    by simp_all
  from g gd gc have grid: "\<exists>ranked \<sigma>' out.
        grid_search_st forecast finish data cfg_list n_test parallel \<sigma> = (Inr ranked, \<sigma>') \<and>
        (\<forall>r<fresh \<sigma>. objects \<sigma>' r = objects \<sigma> r) \<and>
        objects \<sigma>' data = Some (Floats xs) \<and>
        objects \<sigma>' cfg_list = Some (Configs cfgs) \<and>
        fresh \<sigma> \<le> ranked \<and>
        grid_search forecast finish xs cfgs n_test parallel = Inr out \<and>
        objects \<sigma>' ranked = Some (Scores out)"
    by blast
  have h1: "fresh \<sigma> \<le> Suc (Suc (Suc (fresh \<sigma>)))"
    by simp
  have h2: "objects (wfv_entry \<sigma> xs n_test) (Suc (Suc (Suc (fresh \<sigma>))))
        = Some (Floats (fst (train_test_split xs n_test)))"
    by (simp add: wfv_entry_def train_test_split_def)
  have h3: "objects (wfv_entry \<sigma> xs n_test) data = Some (Floats xs)"
    using data alloc by (simp add: wfv_entry_simps)
  note u = walk_forward_validation_st_unfold [OF data alloc, of forecast n_test cfg]
  from w wd wc wr s sd sc sr grid h1 h2 h3 u show ?thesis
    by (intro conjI)
qed

theorem inputs_not_mutated_witness:
  "objects \<lparr>objects = [0 \<mapsto> Floats [1, 2, 3, 4],
        1 \<mapsto> Configs [(None, False, None, None, False, False)]], fresh = 2\<rparr> 0
     = Some (Floats [1, 2, 3, 4]) \<and>
   (0::nat) < fresh \<lparr>objects = [0 \<mapsto> Floats [1, 2, 3, 4],
        1 \<mapsto> Configs [(None, False, None, None, False, False)]], fresh = 2\<rparr> \<and>
   objects (snd (walk_forward_validation_st last_value_forecast 0 2
       (None, False, None, None, False, False)
       \<lparr>objects = [0 \<mapsto> Floats [1, 2, 3, 4],
          1 \<mapsto> Configs [(None, False, None, None, False, False)]], fresh = 2\<rparr>)) 0
     = Some (Floats [1, 2, 3, 4]) \<and>
   fst (walk_forward_validation_st last_value_forecast 0 2
       (None, False, None, None, False, False)
       \<lparr>objects = [0 \<mapsto> Floats [1, 2, 3, 4],
          1 \<mapsto> Configs [(None, False, None, None, False, False)]], fresh = 2\<rparr>) = Inr 1 \<and>
   objects (snd (grid_search_st last_value_forecast id 0 1 2 False
       \<lparr>objects = [0 \<mapsto> Floats [1, 2, 3, 4],
          1 \<mapsto> Configs [(None, False, None, None, False, False)]], fresh = 2\<rparr>)) 1
     = Some (Configs [(None, False, None, None, False, False)])"
proof -
  let ?cfg = "(None, False, None, None, False, False) :: config"
  let ?\<sigma> = "\<lparr>objects = [0 \<mapsto> Floats [1, 2, 3, 4], 1 \<mapsto> Configs [?cfg]], fresh = 2\<rparr>"
  have data: "objects ?\<sigma> 0 = Some (Floats [1, 2, 3, 4])" and alloc: "0 < fresh ?\<sigma>"
    and cfgs: "objects ?\<sigma> 1 = Some (Configs [?cfg])" and alloc_cfgs: "1 < fresh ?\<sigma>"
    by simp_all
  have pure: "walk_forward_validation last_value_forecast [1, 2, 3, 4] 2 ?cfg = Inr 1"
    by (simp add: walk_forward_validation_def train_test_split_def slice_to_def slice_from_def
        slice_bound_def last_value_forecast_def measure_rmse_def mean_squared_error_def
        math_sqrt_def)
  note frame = inputs_not_mutated [OF data alloc cfgs alloc_cfgs,
      of last_value_forecast 2 ?cfg False id False]
  from frame have "objects (snd (walk_forward_validation_st last_value_forecast 0 2 ?cfg ?\<sigma>)) 0
      = Some (Floats [1, 2, 3, 4])"
    by blast
  moreover from frame have "fst (walk_forward_validation_st last_value_forecast 0 2 ?cfg ?\<sigma>)
      = walk_forward_validation last_value_forecast [1, 2, 3, 4] 2 ?cfg"
    by blast
  then have "fst (walk_forward_validation_st last_value_forecast 0 2 ?cfg ?\<sigma>) = Inr 1"
    by (simp only: pure)
  moreover from frame obtain ranked \<sigma>' where
    "grid_search_st last_value_forecast id 0 1 2 False ?\<sigma> = (Inr ranked, \<sigma>')"
    "objects \<sigma>' 1 = Some (Configs [?cfg])"
    by blast
  then have "objects (snd (grid_search_st last_value_forecast id 0 1 2 False ?\<sigma>)) 1
      = Some (Configs [?cfg])"
    by simp
  ultimately show ?thesis
    using data alloc by blast
qed

end
